theory Spec2Isabelle
  imports Complex_Main "HOL-Library.Sublist" "HOL-Library.Multiset" "HOL-Library.Log_Nat"
begin

section \<open>Python values\<close>

text \<open>
  The program is \<^verbatim>\<open>src/mandala_grid.py\<close>. Its values are modelled as follows.
  \<^item> \<^verbatim>\<open>str\<close> is a sequence of Unicode code points: \<open>pystr\<close>, a list of naturals, so that
    \<^verbatim>\<open>len\<close> and slicing count what Python counts. \<open>str ''abc''\<close> is an ASCII literal; a
    code point beyond ASCII is written as its number.
  \<^item> \<^verbatim>\<open>int\<close> is \<open>int\<close>.
  \<^item> \<^verbatim>\<open>float\<close> is \<open>rat\<close>: the exact value of the double. Order and \<^verbatim>\<open>abs\<close> are exact on
    doubles, so they are the ones of \<open>rat\<close>. The one place where the program computes with
    floats is the subtraction in \<^verbatim>\<open>compare_grids\<close>: it is \<open>float_sub\<close> below, the IEEE 754
    binary64 subtraction, and the literal \<^verbatim>\<open>0.01\<close> there is \<open>double_001\<close>, the double that
    Python reads it as. NaN, the infinities and the negative zero are not modelled.
    \<^verbatim>\<open>repr\<close> of a float (the shortest digits that read back as the same double) is a
    property of the binary representation, so the functions that print a bias with
    \<^verbatim>\<open>f"{p.bias}"\<close> take it as the parameter \<open>rf\<close>.
  \<^item> \<^verbatim>\<open>str.lower\<close> follows the Unicode database; \<open>mirror_analysis\<close> takes it as the
    parameter \<open>lower\<close>.
  \<^item> An exception is a value of \<open>py_error\<close>, and a function that can raise returns
    \<open>py_error + 'a\<close>.
\<close>

type_synonym pystr = "nat list"

definition str :: "string \<Rightarrow> pystr" where
  "str s = map of_char s"

datatype py_error =
    KeyError
  | TypeError
  | AttributeError
  | JSONDecodeError
  | FileNotFoundError
  | IllTyped

text \<open>\<^verbatim>\<open>sep.join(xs)\<close>\<close>

fun join :: "pystr \<Rightarrow> pystr list \<Rightarrow> pystr" where
  "join sep [] = []"
| "join sep [x] = x"
| "join sep (x # y # ys) = x @ sep @ join sep (y # ys)"

definition nl :: pystr where
  "nl = [10]"

text \<open>\<^verbatim>\<open>s.split("\n")\<close>: the pieces between line feeds; the accumulator is the piece being read.\<close>

fun split_acc :: "pystr \<Rightarrow> pystr \<Rightarrow> pystr list" where
  "split_acc acc [] = [acc]"
| "split_acc acc (c # cs) = (if c = 10 then acc # split_acc [] cs else split_acc (acc @ [c]) cs)"

definition split_nl :: "pystr \<Rightarrow> pystr list" where
  "split_nl s = split_acc [] s"

text \<open>\<^verbatim>\<open>x in s\<close> on strings is \<^const>\<open>sublist\<close>: a contiguous run.\<close>

text \<open>\<^verbatim>\<open>str(i)\<close> of an int: decimal digits, with a minus sign when negative.\<close>

fun digits :: "nat \<Rightarrow> pystr" where
  "digits n = (if n < 10 then [48 + n] else digits (n div 10) @ [48 + n mod 10])"

declare digits.simps [simp del]

definition str_int :: "int \<Rightarrow> pystr" where
  "str_int i = (if i < 0 then 45 # digits (nat (- i)) else digits (nat i))"

text \<open>
  \<^verbatim>\<open>f"{x:.2f}"\<close>: the value rounded to hundredths, a tie going to the even neighbour; the
  sign is that of \<open>x\<close>, also when the digits are all zero (\<^verbatim>\<open>-0.00\<close>).
\<close>

definition round_half_even :: "rat \<Rightarrow> nat" where
  "round_half_even y =
     (let f = nat \<lfloor>y\<rfloor>; r = y - of_int \<lfloor>y\<rfloor>
      in if r < 1 / 2 then f else if 1 / 2 < r then f + 1 else if even f then f else f + 1)"

definition fmt2f :: "rat \<Rightarrow> pystr" where
  "fmt2f x =
     (let q = round_half_even (\<bar>x\<bar> * 100)
      in (if x < 0 then [45] else []) @ digits (q div 100) @ [46]
         @ [48 + (q mod 100) div 10, 48 + q mod 10])"

text \<open>
  IEEE 754 binary64, rounding to nearest with ties to even. \<open>round_ties_even y\<close> is the
  integer nearest to \<open>y\<close>, the even one of the two when \<open>y\<close> lies halfway. \<open>pow2 k\<close> is
  \<open>2\<close> to the power \<open>k\<close> for an integer \<open>k\<close> of either sign. \<open>binade x\<close>, for a positive
  \<open>x\<close>, is the exponent \<open>e\<close> with \<open>pow2 e \<le> x < pow2 (e + 1)\<close>; \<^const>\<open>bitlen\<close> is the number
  of binary digits of an integer.

  \<open>round_double x\<close> is the double nearest to \<open>x\<close>: a double has 53 significant bits, so
  its last place weighs \<open>pow2 (binade \<bar>x\<bar> - 52)\<close>, and never less than \<open>pow2 (- 1074)\<close>,
  the spacing of the subnormal numbers; \<open>x\<close> is rounded to a multiple of that weight. The
  exponent has no upper bound here: a result beyond the largest double, which the
  hardware turns into infinity, stays a finite number.

  \<open>float_sub a b\<close> is \<^verbatim>\<open>a - b\<close> on floats: the exact difference, rounded. Its arguments are
  rounded first, so that a rational that is not a double stands for the double nearest
  to it, which is what Python reads a decimal literal as; a double is rounded to itself.
  \<open>double_001\<close> is the literal \<^verbatim>\<open>0.01\<close>.
\<close>

definition round_ties_even :: "rat \<Rightarrow> int" where
  "round_ties_even y =
     (let f = \<lfloor>y\<rfloor>; r = y - of_int f
      in if r < 1 / 2 then f else if 1 / 2 < r then f + 1 else if even f then f else f + 1)"

definition pow2 :: "int \<Rightarrow> rat" where
  "pow2 k = (if 0 \<le> k then 2 ^ nat k else 1 / 2 ^ nat (- k))"

definition binade :: "rat \<Rightarrow> int" where
  "binade x = (if 1 \<le> x then bitlen \<lfloor>x\<rfloor> - 1 else - bitlen (\<lceil>1 / x\<rceil> - 1))"

definition round_double :: "rat \<Rightarrow> rat" where
  "round_double x =
     (if x = 0 then 0
      else let q = max (binade \<bar>x\<bar> - 52) (- 1074)
           in sgn x * of_int (round_ties_even (\<bar>x\<bar> / pow2 q)) * pow2 q)"

definition float_sub :: "rat \<Rightarrow> rat \<Rightarrow> rat" where
  "float_sub a b = round_double (round_double a - round_double b)"

definition double_001 :: rat where
  "double_001 = round_double (1 / 100)"

text \<open>\<^verbatim>\<open>f"{s:^14s}"\<close>: centred in \<open>w\<close> columns, the odd space on the right; never cut.\<close>

definition center :: "nat \<Rightarrow> pystr \<Rightarrow> pystr" where
  "center w s =
     (if w \<le> length s then s
      else let pad = w - length s; left = pad div 2
           in replicate left 32 @ s @ replicate (pad - left) 32)"

text \<open>
  \<^verbatim>\<open>sorted(xs, key=key, reverse=reverse)\<close>. The sort is stable; with \<^verbatim>\<open>reverse=True\<close>
  CPython reverses the list, sorts it and reverses the result, which keeps elements of
  equal key in their original order.
\<close>

definition py_sorted :: "('a \<Rightarrow> 'k::linorder) \<Rightarrow> bool \<Rightarrow> 'a list \<Rightarrow> 'a list" where
  "py_sorted key reverse xs = (if reverse then rev (sort_key key (rev xs)) else sort_key key xs)"

text \<open>\<^verbatim>\<open>xs[:n]\<close>: a negative \<open>n\<close> counts from the end.\<close>

definition py_take :: "int \<Rightarrow> 'a list \<Rightarrow> 'a list" where
  "py_take n xs = (if n < 0 then take (length xs - nat (- n)) xs else take (nat n) xs)"

section \<open>Core data structures\<close>

text \<open>\<^verbatim>\<open>class GridPosition\<close>; the field \<^verbatim>\<open>function\<close> is \<open>function_p\<close> here.\<close>

record GridPosition =
  index :: int
  label :: pystr
  label_zh :: pystr
  consciousness :: pystr
  consciousness_zh :: pystr
  function_p :: pystr
  bias :: rat
  description :: pystr

text \<open>\<^verbatim>\<open>class MandalaGrid\<close>\<close>

record MandalaGrid =
  positions :: "GridPosition list"
  version :: pystr
  name :: pystr
  description :: pystr

text \<open>\<^verbatim>\<open>MandalaGrid.default\<close>\<close>

definition default_positions :: "GridPosition list" where
  "default_positions =
    [\<lparr>index = 0, label = str ''Center Observer'',
      label_zh = [20013, 24515, 35264, 28204, 32773],
      consciousness = [257] @ str ''layavij'' @ [241, 257] @ str ''na'',
      consciousness_zh = [31532, 20843, 35672, 65288, 38463, 36084, 32822, 35672, 65289],
      function_p = str ''core_identity'', bias = 1.0,
      GridPosition.description = str ''The silent witness. Observes all positions without attachment.''\<rparr>,
     \<lparr>index = 1, label = str ''Logic Gate'',
      label_zh = [37007, 36655, 38272],
      consciousness = str ''manovij'' @ [241, 257] @ str ''na'',
      consciousness_zh = [31532, 20845, 35672, 65288, 24847, 35672, 65289],
      function_p = str ''logical_consistency'', bias = 0.9,
      GridPosition.description = str ''Rejects any output that contradicts established logic chains.''\<rparr>,
     \<lparr>index = 2, label = str ''Evidence Filter'',
      label_zh = [35657, 25818, 36942, 28670],
      consciousness = str ''cak'' @ [7779] @ str ''ur-vij'' @ [241, 257] @ str ''na'',
      consciousness_zh = [30524, 35672],
      function_p = str ''critical_evidence'', bias = 0.8,
      GridPosition.description = str ''Demands verifiable evidence before accepting claims.''\<rparr>,
     \<lparr>index = 3, label = str ''Minimal Reasoner'',
      label_zh = [26997, 31777, 25512, 29702],
      consciousness = str ''ghr'' @ [257, 7751] @ str ''a-vij'' @ [241, 257] @ str ''na'',
      consciousness_zh = [40763, 35672],
      function_p = str ''minimal_reasoning'', bias = 0.7,
      GridPosition.description = str ''Strips arguments to their simplest valid form.''\<rparr>,
     \<lparr>index = 4, label = str ''Pragmatic Executor'',
      label_zh = [23526, 36368, 22519, 34892],
      consciousness = str ''k'' @ [257] @ str ''ya-vij'' @ [241, 257] @ str ''na'',
      consciousness_zh = [36523, 35672],
      function_p = str ''practical_execution'', bias = 0.6,
      GridPosition.description = str ''Converts reasoning into actionable steps.''\<rparr>,
     \<lparr>index = 5, label = str ''Precision Output'',
      label_zh = [31934, 28310, 29986, 20986],
      consciousness = str ''jihv'' @ [257] @ str ''-vij'' @ [241, 257] @ str ''na'',
      consciousness_zh = [33292, 35672],
      function_p = str ''precise_output'', bias = 0.8,
      GridPosition.description = str ''Ensures output matches the required format and depth.''\<rparr>,
     \<lparr>index = 6, label = str ''Boundary Sentinel'',
      label_zh = [35469, 30693, 37002, 30028],
      consciousness = [347] @ str ''rotra-vij'' @ [241, 257] @ str ''na'',
      consciousness_zh = [32819, 35672],
      function_p = str ''cognitive_boundary'', bias = 0.9,
      GridPosition.description = str ''Flags when reasoning exceeds model capabilities or data.''\<rparr>,
     \<lparr>index = 7, label = str ''Deconstructor'',
      label_zh = [35299, 27083, 32773],
      consciousness = str ''manas'',
      consciousness_zh = [31532, 19971, 35672, 65288, 26411, 37027, 35672, 65289],
      function_p = str ''deconstruction'', bias = 0.95,
      GridPosition.description = str ''Actively seeks counter-examples and hidden assumptions.''\<rparr>,
     \<lparr>index = 8, label = str ''Legacy Keeper'',
      label_zh = [20659, 25215, 23432, 35703],
      consciousness = str ''beyond-eight'',
      consciousness_zh = [20659, 25215, 65288, 36229, 20843, 35672, 65289],
      function_p = str ''core_record_relay'', bias = 0.5,
      GridPosition.description = str ''Ensures continuity across sessions and generations.''\<rparr>]"

definition default_grid :: MandalaGrid where
  "default_grid =
     \<lparr>positions = default_positions, version = str ''2.0'', name = str ''quan-default'',
      description =
        str ''The canonical Quan personality grid with Eight Consciousnesses mapping.''\<rparr>"

section \<open>Query\<close>

text \<open>\<^verbatim>\<open>MandalaGrid.get\<close>: the loop returns the first position of that index.\<close>

fun get_loop :: "GridPosition list \<Rightarrow> int \<Rightarrow> py_error + GridPosition" where
  "get_loop [] i = Inl KeyError"
| "get_loop (p # ps) i = (if index p = i then Inr p else get_loop ps i)"

definition get :: "MandalaGrid \<Rightarrow> int \<Rightarrow> py_error + GridPosition" where
  "get g i = get_loop (positions g) i"

text \<open>\<^verbatim>\<open>[p for p in self.positions if p.index != 0]\<close>\<close>

definition non_center :: "MandalaGrid \<Rightarrow> GridPosition list" where
  "non_center g = filter (\<lambda>p. index p \<noteq> 0) (positions g)"

text \<open>\<^verbatim>\<open>MandalaGrid.top_n\<close>\<close>

definition top_n :: "MandalaGrid \<Rightarrow> int \<Rightarrow> GridPosition list" where
  "top_n g n = py_take n (py_sorted bias True (non_center g))"

text \<open>\<^verbatim>\<open>MandalaGrid.personality_signature\<close>\<close>

definition personality_signature :: "(rat \<Rightarrow> pystr) \<Rightarrow> MandalaGrid \<Rightarrow> pystr" where
  "personality_signature rf g =
     (let top' = top_n g 3;
          parts = map (\<lambda>p. label p @ str ''('' @ rf (bias p) @ str '')'') top'
      in str ''['' @ name g @ str ''] '' @ join (str '' > '') parts)"

section \<open>Structured data and files\<close>

text \<open>
  What \<^verbatim>\<open>json.load\<close> returns. A \<^verbatim>\<open>dict\<close> is the list of its items in insertion order,
  read with \<^const>\<open>map_of\<close>.
\<close>

datatype json =
    JNull
  | JBool bool
  | JInt int
  | JFloat rat
  | JStr pystr
  | JList "json list"
  | JDict "(pystr \<times> json) list"

text \<open>\<^verbatim>\<open>d.get(k, dflt)\<close>\<close>

definition dict_get :: "(pystr \<times> json) list \<Rightarrow> pystr \<Rightarrow> json \<Rightarrow> json" where
  "dict_get d k dflt = (case map_of d k of None \<Rightarrow> dflt | Some v \<Rightarrow> v)"

text \<open>\<^verbatim>\<open>GridPosition.to_dict\<close>: \<^verbatim>\<open>asdict\<close> lists the fields in declaration order.\<close>

definition position_to_dict :: "GridPosition \<Rightarrow> json" where
  "position_to_dict p =
     JDict
      [(str ''index'', JInt (index p)),
       (str ''label'', JStr (label p)),
       (str ''label_zh'', JStr (label_zh p)),
       (str ''consciousness'', JStr (consciousness p)),
       (str ''consciousness_zh'', JStr (consciousness_zh p)),
       (str ''function'', JStr (function_p p)),
       (str ''bias'', JFloat (bias p)),
       (str ''description'', JStr (GridPosition.description p))]"

text \<open>\<^verbatim>\<open>MandalaGrid.to_dict\<close>\<close>

definition to_dict :: "MandalaGrid \<Rightarrow> json" where
  "to_dict g =
     JDict
      [(str ''mandala_grid'',
        JDict
         [(str ''version'', JStr (version g)),
          (str ''name'', JStr (name g)),
          (str ''description'', JStr (MandalaGrid.description g)),
          (str ''positions'', JList (map position_to_dict (positions g)))])]"

text \<open>
  \<^verbatim>\<open>GridPosition(**p)\<close>. The generated \<^verbatim>\<open>__init__\<close> raises \<^verbatim>\<open>TypeError\<close> when \<open>p\<close> is not a
  mapping, when it has a key that is not a field, and when a field without a default is
  missing; \<^verbatim>\<open>description\<close> defaults to the empty string. Python does not check the
  annotations: the object holds the values of the keyword arguments as they are, of any
  type. So \<open>GridPosition_init\<close> returns the keyword arguments it has bound, and raises what
  Python raises, for every source.

  The records keep the declared types. \<open>bind_fields\<close> reads the bound arguments at these
  types; where a value has another type, the object Python has built has no image in the
  records, and \<open>from_fields\<close> answers \<^const>\<open>IllTyped\<close>, which is no Python exception: it
  stands for a load that succeeds in Python with a grid outside the declared types.
\<close>

definition required_fields :: "pystr list" where
  "required_fields =
     [str ''index'', str ''label'', str ''label_zh'', str ''consciousness'',
      str ''consciousness_zh'', str ''function'', str ''bias'']"

definition field_names :: "pystr list" where
  "field_names = required_fields @ [str ''description'']"

fun as_int :: "json \<Rightarrow> int option" where
  "as_int (JInt i) = Some i"
| "as_int _ = None"

fun as_float :: "json \<Rightarrow> rat option" where
  "as_float (JFloat x) = Some x"
| "as_float _ = None"

fun as_str :: "json \<Rightarrow> pystr option" where
  "as_str (JStr s) = Some s"
| "as_str _ = None"

definition bind_fields :: "(pystr \<times> json) list \<Rightarrow> GridPosition option" where
  "bind_fields kw =
     Option.bind (as_int (dict_get kw (str ''index'') JNull)) (\<lambda>i.
     Option.bind (as_str (dict_get kw (str ''label'') JNull)) (\<lambda>l.
     Option.bind (as_str (dict_get kw (str ''label_zh'') JNull)) (\<lambda>lz.
     Option.bind (as_str (dict_get kw (str ''consciousness'') JNull)) (\<lambda>c.
     Option.bind (as_str (dict_get kw (str ''consciousness_zh'') JNull)) (\<lambda>cz.
     Option.bind (as_str (dict_get kw (str ''function'') JNull)) (\<lambda>f.
     Option.bind (as_float (dict_get kw (str ''bias'') JNull)) (\<lambda>b.
     Option.bind (as_str (dict_get kw (str ''description'') (JStr []))) (\<lambda>d.
       Some \<lparr>index = i, label = l, label_zh = lz, consciousness = c,
             consciousness_zh = cz, function_p = f, bias = b,
             GridPosition.description = d\<rparr>))))))))"

definition GridPosition_init :: "json \<Rightarrow> py_error + (pystr \<times> json) list" where
  "GridPosition_init p =
     (case p of
        JDict kw \<Rightarrow>
          if list_ex (\<lambda>k. k \<notin> set field_names) (map fst kw) then Inl TypeError
          else if list_ex (\<lambda>k. map_of kw k = None) required_fields then Inl TypeError
          else Inr kw
      | _ \<Rightarrow> Inl TypeError)"

text \<open>
  \<^verbatim>\<open>for p in x\<close>: a list gives its elements, a string its characters, a dict its keys;
  \<^verbatim>\<open>None\<close>, a bool and a number are not iterable.
\<close>

fun py_iter :: "json \<Rightarrow> py_error + json list" where
  "py_iter (JList xs) = Inr xs"
| "py_iter (JStr s) = Inr (map (\<lambda>c. JStr [c]) s)"
| "py_iter (JDict d) = Inr (map (\<lambda>kv. JStr (fst kv)) d)"
| "py_iter _ = Inl TypeError"

text \<open>\<^verbatim>\<open>[GridPosition(**p) for p in items]\<close>: the first failure ends the comprehension.\<close>

fun init_all :: "json list \<Rightarrow> py_error + (pystr \<times> json) list list" where
  "init_all [] = Inr []"
| "init_all (p # ps) =
     (case GridPosition_init p of
        Inl e \<Rightarrow> Inl e
      | Inr q \<Rightarrow> (case init_all ps of Inl e \<Rightarrow> Inl e | Inr qs \<Rightarrow> Inr (q # qs)))"

text \<open>
  \<^verbatim>\<open>MandalaGrid.from_json\<close> after \<^verbatim>\<open>json.load\<close>. \<open>from_fields\<close> is the part that reads the
  dict \<^verbatim>\<open>mg\<close>: \<^verbatim>\<open>mg["positions"]\<close> raises \<^verbatim>\<open>KeyError\<close> when the key is missing, the
  comprehension builds the positions, and the three \<^verbatim>\<open>mg.get\<close> supply the defaults; the
  last step reads what Python has built at the declared types.
  \<open>from_data\<close> picks \<^verbatim>\<open>mg\<close>: \<^verbatim>\<open>data.get\<close> needs a dict (\<^verbatim>\<open>AttributeError\<close> otherwise), and
  \<^verbatim>\<open>mg["positions"]\<close> on anything that is not a dict raises \<^verbatim>\<open>TypeError\<close>.
\<close>

definition from_fields :: "(pystr \<times> json) list \<Rightarrow> py_error + MandalaGrid" where
  "from_fields mg =
     (case map_of mg (str ''positions'') of
        None \<Rightarrow> Inl KeyError
      | Some ps \<Rightarrow>
          (case py_iter ps of
             Inl e \<Rightarrow> Inl e
           | Inr items \<Rightarrow>
               (case init_all items of
                  Inl e \<Rightarrow> Inl e
                | Inr objs \<Rightarrow>
                    (case (those (map bind_fields objs),
                           as_str (dict_get mg (str ''version'') (JStr (str ''2.0''))),
                           as_str (dict_get mg (str ''name'') (JStr (str ''custom''))),
                           as_str (dict_get mg (str ''description'') (JStr []))) of
                       (Some ps', Some v, Some n, Some dsc) \<Rightarrow>
                         Inr \<lparr>positions = ps', version = v, name = n, description = dsc\<rparr>
                     | _ \<Rightarrow> Inl IllTyped))))"

definition from_data :: "json \<Rightarrow> py_error + MandalaGrid" where
  "from_data data =
     (case data of
        JDict d \<Rightarrow>
          (case dict_get d (str ''mandala_grid'') data of
             JDict mg \<Rightarrow> from_fields mg
           | _ \<Rightarrow> Inl TypeError)
      | _ \<Rightarrow> Inl AttributeError)"

text \<open>
  A file is either text that \<^verbatim>\<open>json.load\<close> rejects or the document it parses to; the
  file system maps a path to its file. \<^verbatim>\<open>open\<close> fails on a path that is not there.
\<close>

datatype file_content = Malformed | Document json

type_synonym filesystem = "pystr \<Rightarrow> file_content option"

definition from_json :: "filesystem \<Rightarrow> pystr \<Rightarrow> py_error + MandalaGrid" where
  "from_json fs path =
     (case fs path of
        None \<Rightarrow> Inl FileNotFoundError
      | Some Malformed \<Rightarrow> Inl JSONDecodeError
      | Some (Document data) \<Rightarrow> from_data data)"

section \<open>Reasoning\<close>






section \<open>Display\<close>

text \<open>\<^verbatim>\<open>{p.index: p for p in self.positions}\<close>: a later position replaces an earlier one.\<close>

definition index_dict :: "GridPosition list \<Rightarrow> int \<Rightarrow> GridPosition option" where
  "index_dict ps = foldl (\<lambda>m p. m(index p \<mapsto> p)) Map.empty ps"

definition cell_text :: "GridPosition \<Rightarrow> pystr" where
  "cell_text p = center 14 (take 12 (label p)) @ str ''('' @ fmt2f (bias p) @ str '')''"

definition cell :: "(int \<Rightarrow> GridPosition option) \<Rightarrow> int \<Rightarrow> py_error + pystr" where
  "cell g i = (case g i of None \<Rightarrow> Inl KeyError | Some p \<Rightarrow> Inr (cell_text p))"

text \<open>One row: the three cells are computed left to right.\<close>

definition row_text :: "pystr \<Rightarrow> pystr \<Rightarrow> pystr \<Rightarrow> pystr" where
  "row_text ca cb cc = str ''|'' @ ca @ str ''|'' @ cb @ str ''|'' @ cc @ str ''|''"

definition display_row ::
    "(int \<Rightarrow> GridPosition option) \<Rightarrow> int \<Rightarrow> int \<Rightarrow> int \<Rightarrow> py_error + pystr" where
  "display_row g a b c =
     (case cell g a of
        Inl e \<Rightarrow> Inl e
      | Inr ca \<Rightarrow>
          (case cell g b of
             Inl e \<Rightarrow> Inl e
           | Inr cb \<Rightarrow>
               (case cell g c of
                  Inl e \<Rightarrow> Inl e
                | Inr cc \<Rightarrow> Inr (row_text ca cb cc))))"

definition sep :: pystr where
  "sep = str ''+'' @ concat (replicate 3 (replicate 16 45 @ str ''+''))"

definition display_rows :: "MandalaGrid \<Rightarrow> py_error + pystr list" where
  "display_rows grid =
     (let g = index_dict (positions grid)
      in case display_row g 1 2 3 of
           Inl e \<Rightarrow> Inl e
         | Inr r1 \<Rightarrow>
             (case display_row g 6 0 5 of
                Inl e \<Rightarrow> Inl e
              | Inr r2 \<Rightarrow>
                  (case display_row g 7 8 4 of
                     Inl e \<Rightarrow> Inl e
                   | Inr r3 \<Rightarrow> Inr [sep, r1, sep, r2, sep, r3, sep])))"

definition display :: "MandalaGrid \<Rightarrow> py_error + pystr" where
  "display grid = (case display_rows grid of Inl e \<Rightarrow> Inl e | Inr rows \<Rightarrow> Inr (join nl rows))"

section \<open>Comparison\<close>

text \<open>
  \<^verbatim>\<open>compare_grids\<close>. \<open>diff\<close> is the float \<^verbatim>\<open>pa.bias - pb.bias\<close>; \<open>diff_line\<close> is the line the
  loop appends when \<^verbatim>\<open>abs(diff) > 0.01\<close>, with the two biases and \<^verbatim>\<open>abs(diff)\<close> printed as
  the doubles they are; \<open>compare_loop\<close> is the loop over the positions of \<open>a\<close>, with the
  list \<^verbatim>\<open>lines\<close> as accumulator.
\<close>

definition diff_line :: "GridPosition \<Rightarrow> GridPosition \<Rightarrow> pystr" where
  "diff_line pa pb =
     (let diff = float_sub (bias pa) (bias pb);
          arrow = (if 0 < diff then [8593] else [8595])
      in str ''  Position '' @ str_int (index pa) @ str '' ('' @ label pa @ str ''): ''
         @ fmt2f (round_double (bias pa)) @ str '' '' @ [8594] @ str '' ''
         @ fmt2f (round_double (bias pb))
         @ str '' ['' @ arrow @ fmt2f \<bar>diff\<bar> @ str '']'')"

fun compare_loop :: "MandalaGrid \<Rightarrow> GridPosition list \<Rightarrow> pystr list \<Rightarrow> py_error + pystr list" where
  "compare_loop b [] lines = Inr lines"
| "compare_loop b (pa # rest) lines =
     (case get b (index pa) of
        Inl e \<Rightarrow> Inl e
      | Inr pb \<Rightarrow>
          compare_loop b rest
            (if double_001 < \<bar>float_sub (bias pa) (bias pb)\<bar> then lines @ [diff_line pa pb]
             else lines))"

definition compare_header :: "MandalaGrid \<Rightarrow> MandalaGrid \<Rightarrow> pystr list" where
  "compare_header a b =
     [str ''Comparing ['' @ name a @ str ''] vs ['' @ name b @ str '']'', replicate 50 61]"

definition compare_footer :: "(rat \<Rightarrow> pystr) \<Rightarrow> MandalaGrid \<Rightarrow> MandalaGrid \<Rightarrow> pystr list" where
  "compare_footer rf a b =
     [[],
      str ''  '' @ name a @ str '': '' @ personality_signature rf a,
      str ''  '' @ name b @ str '': '' @ personality_signature rf b]"

definition compare_lines ::
    "(rat \<Rightarrow> pystr) \<Rightarrow> MandalaGrid \<Rightarrow> MandalaGrid \<Rightarrow> py_error + pystr list" where
  "compare_lines rf a b =
     (case compare_loop b (positions a) (compare_header a b) of
        Inl e \<Rightarrow> Inl e
      | Inr lines \<Rightarrow> Inr (lines @ compare_footer rf a b))"

definition compare_grids ::
    "(rat \<Rightarrow> pystr) \<Rightarrow> MandalaGrid \<Rightarrow> MandalaGrid \<Rightarrow> py_error + pystr" where
  "compare_grids rf a b =
     (case compare_lines rf a b of Inl e \<Rightarrow> Inl e | Inr lines \<Rightarrow> Inr (join nl lines))"

section \<open>Mirror effect analysis\<close>

text \<open>\<^verbatim>\<open>mirror_analysis\<close>; \<open>mirror_lines\<close> is its list \<^verbatim>\<open>lines\<close>.\<close>

definition strongest_line :: "(rat \<Rightarrow> pystr) \<Rightarrow> (pystr \<Rightarrow> pystr) \<Rightarrow> GridPosition \<Rightarrow> pystr" where
  "strongest_line rf lower p =
     str ''  '' @ [11014] @ str '' '' @ label p @ str '' (bias='' @ rf (bias p)
       @ str ''): You naturally '' @ lower (GridPosition.description p)"

definition deprioritized_line :: "(rat \<Rightarrow> pystr) \<Rightarrow> GridPosition \<Rightarrow> pystr" where
  "deprioritized_line rf p =
     str ''  '' @ [11015] @ str '' '' @ label p @ str '' (bias='' @ rf (bias p)
       @ str ''): You tend to under-invest in '' @ function_p p"

definition bottom_two :: "MandalaGrid \<Rightarrow> GridPosition list" where
  "bottom_two grid = py_take 2 (py_sorted bias False (non_center grid))"

definition mirror_header :: "pystr list" where
  "mirror_header =
     [[9552, 9552, 9552] @ str '' Mirror Analysis '' @ [9552, 9552, 9552],
      [],
      str ''The AI-as-Mirror theory: your mandala_grid is not a design spec '' @ [8212],
      str ''it'' @ [39] @ str ''s a self-portrait of how you think.'',
      [],
      str ''Your strongest cognitive patterns:'']"

definition center_line :: "GridPosition \<Rightarrow> pystr" where
  "center_line center_p =
     str ''Your center: '' @ label center_p @ str '' '' @ [8212] @ str '' ''
       @ GridPosition.description center_p"

definition mirror_closing :: pystr where
  "mirror_closing =
     str ''Buddhism calls this self-awareness. You call it mandala_grid. Same thing.''"

definition mirror_lines ::
    "(rat \<Rightarrow> pystr) \<Rightarrow> (pystr \<Rightarrow> pystr) \<Rightarrow> MandalaGrid \<Rightarrow> py_error + pystr list" where
  "mirror_lines rf lower grid =
     (let top' = top_n grid 3;
          bottom = bottom_two grid;
          lines = mirror_header;
          lines = foldl (\<lambda>lines p. lines @ [strongest_line rf lower p]) lines top';
          lines = lines @ [[]];
          lines = lines @ [str ''Your deprioritized patterns:''];
          lines = foldl (\<lambda>lines p. lines @ [deprioritized_line rf p]) lines bottom;
          lines = lines @ [[]]
      in case get grid 0 of
           Inl e \<Rightarrow> Inl e
         | Inr center_p \<Rightarrow> Inr (lines @ [center_line center_p, [], mirror_closing]))"

definition mirror_analysis ::
    "(rat \<Rightarrow> pystr) \<Rightarrow> (pystr \<Rightarrow> pystr) \<Rightarrow> MandalaGrid \<Rightarrow> py_error + pystr" where
  "mirror_analysis rf lower grid =
     (case mirror_lines rf lower grid of Inl e \<Rightarrow> Inl e | Inr lines \<Rightarrow> Inr (join nl lines))"

section \<open>Notions used in the statements\<close>

text \<open>
  What one position \<open>pa\<close> of the first grid contributes to the comparison with \<open>b\<close>: the
  diff line when the float difference of the biases exceeds the float 0.01 in absolute
  value, nothing otherwise.
\<close>

definition position_diff :: "MandalaGrid \<Rightarrow> GridPosition \<Rightarrow> pystr list" where
  "position_diff b pa =
     (case get b (index pa) of
        Inl e \<Rightarrow> []
      | Inr pb \<Rightarrow>
          if double_001 < \<bar>float_sub (bias pa) (bias pb)\<bar> then [diff_line pa pb] else [])"

text \<open>
  The seven rows of the display when \<open>p i\<close> is the position shown for index \<open>i\<close>:
  row 1 shows 1, 2, 3, row 2 shows 6, 0, 5 and row 3 shows 7, 8, 4.
\<close>

definition layout_rows :: "(int \<Rightarrow> GridPosition) \<Rightarrow> pystr list" where
  "layout_rows p =
     [sep,
      row_text (cell_text (p 1)) (cell_text (p 2)) (cell_text (p 3)),
      sep,
      row_text (cell_text (p 6)) (cell_text (p 0)) (cell_text (p 5)),
      sep,
      row_text (cell_text (p 7)) (cell_text (p 8)) (cell_text (p 4)),
      sep]"

text \<open>The number a string of decimal digits denotes.\<close>

definition decimal_value :: "pystr \<Rightarrow> nat" where
  "decimal_value ds = foldl (\<lambda>a d. 10 * a + (d - 48)) 0 ds"

text \<open>
  The shape \<^verbatim>\<open>from_json\<close> needs of a source. A position is an object whose keys are field
  names and that has the seven fields without a default. A source is an object; the grid
  part is what it holds under \<^verbatim>\<open>mandala_grid\<close>, or the source itself; the grid part is an
  object with the key \<^verbatim>\<open>positions\<close>, holding something that can be iterated and yields
  positions only.
\<close>

definition position_ok :: "json \<Rightarrow> bool" where
  "position_ok p =
     (case p of
        JDict kw \<Rightarrow>
          list_all (\<lambda>k. k \<in> set field_names) (map fst kw)
          \<and> list_all (\<lambda>k. map_of kw k \<noteq> None) required_fields
      | _ \<Rightarrow> False)"

definition fields_ok :: "(pystr \<times> json) list \<Rightarrow> bool" where
  "fields_ok mg =
     (case map_of mg (str ''positions'') of
        None \<Rightarrow> False
      | Some ps \<Rightarrow> (case py_iter ps of Inl e \<Rightarrow> False | Inr items \<Rightarrow> list_all position_ok items))"

definition loadable :: "json \<Rightarrow> bool" where
  "loadable data =
     (case data of
        JDict d \<Rightarrow>
          (case dict_get d (str ''mandala_grid'') data of JDict mg \<Rightarrow> fields_ok mg | _ \<Rightarrow> False)
      | _ \<Rightarrow> False)"

text \<open>
  The sources whose values have the declared types wherever \<^verbatim>\<open>from_json\<close> stores them in
  a field: an int under \<^verbatim>\<open>index\<close>, a float under \<^verbatim>\<open>bias\<close>, a string under the other fields
  of a position and under \<^verbatim>\<open>version\<close>, \<^verbatim>\<open>name\<close> and \<^verbatim>\<open>description\<close> of the grid.
\<close>

definition typed_field :: "pystr \<times> json \<Rightarrow> bool" where
  "typed_field kv =
     (if fst kv = str ''index'' then as_int (snd kv) \<noteq> None
      else if fst kv = str ''bias'' then as_float (snd kv) \<noteq> None
      else if fst kv \<in> set field_names then as_str (snd kv) \<noteq> None
      else True)"

definition typed_position :: "json \<Rightarrow> bool" where
  "typed_position p = (case p of JDict kw \<Rightarrow> list_all typed_field kw | _ \<Rightarrow> True)"

definition typed_grid_field :: "pystr \<times> json \<Rightarrow> bool" where
  "typed_grid_field kv =
     (if fst kv \<in> {str ''version'', str ''name'', str ''description''}
      then as_str (snd kv) \<noteq> None else True)"

definition typed_fields :: "(pystr \<times> json) list \<Rightarrow> bool" where
  "typed_fields mg =
     (list_all typed_grid_field mg
      \<and> (case map_of mg (str ''positions'') of
            None \<Rightarrow> True
          | Some ps \<Rightarrow>
              (case py_iter ps of Inl e \<Rightarrow> True | Inr items \<Rightarrow> list_all typed_position items)))"

definition typed_source :: "json \<Rightarrow> bool" where
  "typed_source data =
     (case data of
        JDict d \<Rightarrow>
          (case dict_get d (str ''mandala_grid'') data of JDict mg \<Rightarrow> typed_fields mg | _ \<Rightarrow> True)
      | _ \<Rightarrow> True)"

text \<open>
  A position object with every field and one key more, and the source that holds it.
\<close>

definition extra_key_position :: "(pystr \<times> json) list" where
  "extra_key_position =
     [(str ''index'', JInt 1),
      (str ''label'', JStr (str ''x'')),
      (str ''label_zh'', JStr []),
      (str ''consciousness'', JStr []),
      (str ''consciousness_zh'', JStr []),
      (str ''function'', JStr []),
      (str ''bias'', JFloat 0.5),
      (str ''description'', JStr []),
      (str ''note'', JStr (str ''y''))]"

definition extra_key_source :: json where
  "extra_key_source = JDict [(str ''positions'', JList [JDict extra_key_position])]"

text \<open>
  Grid fields that hold only positions, with biases outside the range from 0 to 1, and
  the grid \<^verbatim>\<open>from_json\<close> makes of them.
\<close>

definition wild_positions :: "GridPosition list" where
  "wild_positions =
     [\<lparr>index = 3, label = str ''x'', label_zh = [], consciousness = [], consciousness_zh = [],
       function_p = [], bias = 15 / 2, GridPosition.description = []\<rparr>,
      \<lparr>index = 4, label = str ''y'', label_zh = [], consciousness = [], consciousness_zh = [],
       function_p = [], bias = - 2, GridPosition.description = []\<rparr>]"

definition loose_fields :: "(pystr \<times> json) list" where
  "loose_fields = [(str ''positions'', JList (map position_to_dict wild_positions))]"

definition wild_grid :: MandalaGrid where
  "wild_grid =
     \<lparr>positions = wild_positions, version = str ''2.0'', name = str ''custom'', description = []\<rparr>"

text \<open>A grid with no position, and a grid with two positions of the same index.\<close>

definition empty_grid :: MandalaGrid where
  "empty_grid = \<lparr>positions = [], version = str ''2.0'', name = str ''default'', description = []\<rparr>"

definition plain_position :: "int \<Rightarrow> rat \<Rightarrow> GridPosition" where
  "plain_position i b =
     \<lparr>index = i, label = str ''x'', label_zh = [], consciousness = [], consciousness_zh = [],
      function_p = [], bias = b, GridPosition.description = []\<rparr>"

definition twin_grid :: MandalaGrid where
  "twin_grid = empty_grid\<lparr>positions := [plain_position 1 0.9, plain_position 1 0.5]\<rparr>"

text \<open>
  The second grid of \<^verbatim>\<open>test_compare_different_grids\<close>: the default grid with the bias of
  \<^verbatim>\<open>positions[7]\<close> set to 0.5, renamed.
\<close>

definition modified_grid :: MandalaGrid where
  "modified_grid =
     default_grid\<lparr>positions := (positions default_grid)[7 := (positions default_grid ! 7)\<lparr>bias := 0.5\<rparr>],
                  name := str ''modified''\<rparr>"

section \<open>The default grid\<close>

lemma default_indices: "map index (positions default_grid) = [0, 1, 2, 3, 4, 5, 6, 7, 8]"
  by (simp add: default_grid_def default_positions_def)

lemma top_n_default_3:
  "map (\<lambda>p. (index p, label p, bias p)) (top_n default_grid 3) =
     [(7, str ''Deconstructor'', 0.95), (1, str ''Logic Gate'', 0.9),
      (6, str ''Boundary Sentinel'', 0.9)]"
  by (simp add: top_n_def non_center_def py_sorted_def py_take_def default_grid_def
      default_positions_def)

lemma top_n_default_1: "map (\<lambda>p. (index p, bias p)) (top_n default_grid 1) = [(7, 0.95)]"
  by (simp add: top_n_def non_center_def py_sorted_def py_take_def default_grid_def
      default_positions_def)

lemma get_default_0: "\<exists>p. get default_grid 0 = Inr p \<and> bias p = 1"
  by (simp add: get_def default_grid_def default_positions_def)

text \<open>
  C6. \<^verbatim>\<open>MandalaGrid.default()\<close> has exactly 9 positions, their indices are 0 to 8 in this
  order (so without duplicates), the position of index 0 has bias 1.0 (it is the only one
  of that index, and it is what \<^verbatim>\<open>get(0)\<close> returns), \<^verbatim>\<open>top_n(1)\<close> is the position of index 7
  with bias 0.95, and \<^verbatim>\<open>top_n(3)\<close> is Deconstructor, Logic Gate, Boundary Sentinel (indices
  7, 1, 6 with biases 0.95, 0.9, 0.9): of the two positions of bias 0.9, index 1 is defined
  before index 6 and comes first.
\<close>

theorem default_grid_canonical:
  "length (positions default_grid) = 9
   \<and> map index (positions default_grid) = [0, 1, 2, 3, 4, 5, 6, 7, 8]
   \<and> distinct (map index (positions default_grid))
   \<and> set (map index (positions default_grid)) = {0..8}
   \<and> map bias (filter (\<lambda>p. index p = 0) (positions default_grid)) = [1]
   \<and> (\<exists>p. get default_grid 0 = Inr p \<and> bias p = 1)
   \<and> map (\<lambda>p. (index p, bias p)) (top_n default_grid 1) = [(7, 0.95)]
   \<and> map (\<lambda>p. (index p, label p, bias p)) (top_n default_grid 3) =
       [(7, str ''Deconstructor'', 0.95), (1, str ''Logic Gate'', 0.9),
        (6, str ''Boundary Sentinel'', 0.9)]"
proof -
  have len: "length (positions default_grid) = 9"
    using arg_cong [OF default_indices, of length] by simp
  have dist: "distinct (map index (positions default_grid))"
    by (simp add: default_indices)
  have "{0..8::int} = {0, 1, 2, 3, 4, 5, 6, 7, 8}"
    by auto
  then have rng: "set (map index (positions default_grid)) = {0..8}"
    by (simp add: default_indices)
  have centre: "map bias (filter (\<lambda>p. index p = 0) (positions default_grid)) = [1]"
    by (simp add: default_grid_def default_positions_def)
  show ?thesis
    using len default_indices dist rng centre get_default_0 top_n_default_1 top_n_default_3
    by blast
qed

section \<open>Serialization round trip\<close>

lemma GridPosition_init_to_dict:
  "\<exists>kw. GridPosition_init (position_to_dict p) = Inr kw \<and> bind_fields kw = Some p"
  by (simp add: GridPosition_init_def position_to_dict_def field_names_def required_fields_def
      bind_fields_def dict_get_def str_def)

lemma init_all_to_dict:
  "\<exists>objs. init_all (map position_to_dict ps) = Inr objs \<and> those (map bind_fields objs) = Some ps"
proof (induction ps)
  case Nil
  then show ?case by simp
next
  case (Cons p ps)
  then obtain objs where o: "init_all (map position_to_dict ps) = Inr objs"
    "those (map bind_fields objs) = Some ps"
    by blast
  obtain kw where k: "GridPosition_init (position_to_dict p) = Inr kw" "bind_fields kw = Some p"
    using GridPosition_init_to_dict by blast
  have "init_all (map position_to_dict (p # ps)) = Inr (kw # objs)
        \<and> those (map bind_fields (kw # objs)) = Some (p # ps)"
    by (simp add: o k)
  then show ?case by blast
qed

lemma from_fields_to_dict:
  assumes "map_of mg (str ''positions'') = Some (JList (map position_to_dict ps))"
    and "as_str (dict_get mg (str ''version'') (JStr (str ''2.0''))) = Some v"
    and "as_str (dict_get mg (str ''name'') (JStr (str ''custom''))) = Some n"
    and "as_str (dict_get mg (str ''description'') (JStr [])) = Some d"
  shows "from_fields mg = Inr \<lparr>positions = ps, version = v, name = n, description = d\<rparr>"
proof -
  obtain objs where "init_all (map position_to_dict ps) = Inr objs"
    "those (map bind_fields objs) = Some ps"
    using init_all_to_dict by blast
  with assms show ?thesis
    by (simp add: from_fields_def)
qed

lemma from_data_to_dict: "from_data (to_dict g) = Inr g"
proof -
  let ?mg = "[(str ''version'', JStr (version g)), (str ''name'', JStr (name g)),
              (str ''description'', JStr (MandalaGrid.description g)),
              (str ''positions'', JList (map position_to_dict (positions g)))]"
  have "from_fields ?mg =
          Inr \<lparr>positions = positions g, version = version g, name = name g,
               description = MandalaGrid.description g\<rparr>"
    by (rule from_fields_to_dict) (simp_all add: dict_get_def str_def)
  then show ?thesis
    by (simp add: from_data_def to_dict_def dict_get_def)
qed

text \<open>
  C1. Loading the structured serialization of a grid gives the grid back: the same
  version, name, description and positions, field for field and in the same order
  (equality of the records). \<open>to_dict\<close> is the structured serialization and \<open>from_data\<close> is
  \<^verbatim>\<open>from_json\<close> on the value \<^verbatim>\<open>json.load\<close> has returned.
\<close>

theorem roundtrip: "from_data (to_dict g) = Inr g"
  by (rule from_data_to_dict)

section \<open>Lookup by index\<close>

lemma get_loop_Inl_iff:
  "get_loop ps i = Inl e \<longleftrightarrow> e = KeyError \<and> i \<notin> index ` set ps"
  by (induction ps) auto

lemma get_loop_Inr_iff:
  "get_loop ps i = Inr p \<longleftrightarrow>
     (\<exists>pre post. ps = pre @ p # post \<and> index p = i \<and> i \<notin> index ` set pre)"
proof (induction ps)
  case Nil
  then show ?case by simp
next
  case (Cons q qs)
  show ?case
  proof (cases "index q = i")
    case True
    have "(\<exists>pre post. q # qs = pre @ p # post \<and> index p = i \<and> i \<notin> index ` set pre) \<longleftrightarrow> p = q"
    proof
      assume "\<exists>pre post. q # qs = pre @ p # post \<and> index p = i \<and> i \<notin> index ` set pre"
      then obtain pre post where h: "q # qs = pre @ p # post" "i \<notin> index ` set pre"
        by blast
      show "p = q"
      proof (cases pre)
        case Nil
        with h show ?thesis by simp
      next
        case (Cons r rs)
        with h True show ?thesis by auto
      qed
    next
      assume "p = q"
      with True have "q # qs = [] @ p # qs \<and> index p = i \<and> i \<notin> index ` set []"
        by simp
      then show "\<exists>pre post. q # qs = pre @ p # post \<and> index p = i \<and> i \<notin> index ` set pre"
        by blast
    qed
    with True show ?thesis by auto
  next
    case False
    have "(\<exists>pre post. q # qs = pre @ p # post \<and> index p = i \<and> i \<notin> index ` set pre)
          \<longleftrightarrow> (\<exists>pre post. qs = pre @ p # post \<and> index p = i \<and> i \<notin> index ` set pre)"
    proof
      assume "\<exists>pre post. q # qs = pre @ p # post \<and> index p = i \<and> i \<notin> index ` set pre"
      then obtain pre post where h: "q # qs = pre @ p # post" "index p = i" "i \<notin> index ` set pre"
        by blast
      show "\<exists>pre post. qs = pre @ p # post \<and> index p = i \<and> i \<notin> index ` set pre"
      proof (cases pre)
        case Nil
        with h False show ?thesis by simp
      next
        case (Cons r rs)
        with h have "qs = rs @ p # post \<and> index p = i \<and> i \<notin> index ` set rs" by simp
        then show ?thesis by blast
      qed
    next
      assume "\<exists>pre post. qs = pre @ p # post \<and> index p = i \<and> i \<notin> index ` set pre"
      then obtain pre post where h: "qs = pre @ p # post" "index p = i" "i \<notin> index ` set pre"
        by blast
      with False have "q # qs = (q # pre) @ p # post \<and> index p = i \<and> i \<notin> index ` set (q # pre)"
        by simp
      then show "\<exists>pre post. q # qs = pre @ p # post \<and> index p = i \<and> i \<notin> index ` set pre"
        by blast
    qed
    with False Cons.IH show ?thesis by simp
  qed
qed

lemma compare_loop_Inl_iff:
  "compare_loop b ps lines = Inl e \<longleftrightarrow>
     e = KeyError \<and> (\<exists>pa \<in> set ps. index pa \<notin> index ` set (positions b))"
proof (induction ps arbitrary: lines)
  case Nil
  then show ?case by simp
next
  case (Cons pa rest)
  show ?case
  proof (cases "get b (index pa)")
    case (Inl e')
    then have "e' = KeyError" "index pa \<notin> index ` set (positions b)"
      by (simp_all add: get_def get_loop_Inl_iff)
    with Inl show ?thesis by auto
  next
    case (Inr pb)
    then have "index pa \<in> index ` set (positions b)"
      using get_loop_Inl_iff [of "positions b" "index pa" KeyError] by (auto simp: get_def)
    with Inr Cons.IH show ?thesis by simp
  qed
qed

lemma get_Inr_of_present:
  "i \<in> index ` set (positions b) \<Longrightarrow> \<exists>pb. get b i = Inr pb"
  using get_loop_Inl_iff [of "positions b" i] by (cases "get b i") (auto simp: get_def)

lemma get_loop_nth_distinct:
  "distinct (map index ps) \<Longrightarrow> k < length ps \<Longrightarrow> get_loop ps (index (ps ! k)) = Inr (ps ! k)"
proof (induction ps arbitrary: k)
  case Nil
  then show ?case by simp
next
  case (Cons q qs)
  show ?case
  proof (cases k)
    case 0
    then show ?thesis by simp
  next
    case (Suc j)
    with Cons.prems have j: "j < length qs" and d: "distinct (map index qs)"
      and nq: "index q \<notin> index ` set qs"
      by auto
    from j have "index (qs ! j) \<in> index ` set qs" by simp
    with nq have "index q \<noteq> index (qs ! j)" by metis
    with Cons.IH [OF d j] Suc show ?thesis by simp
  qed
qed

lemma compare_grids_Inl_iff:
  "compare_grids rf a b = Inl e \<longleftrightarrow>
     e = KeyError \<and> (\<exists>pa \<in> set (positions a). index pa \<notin> index ` set (positions b))"
  using compare_loop_Inl_iff [of b "positions a" "compare_header a b" e]
  by (auto simp: compare_grids_def compare_lines_def split: sum.splits)

text \<open>
  C5. \<^verbatim>\<open>get(i)\<close> raises \<^verbatim>\<open>KeyError\<close> (the spec's NotFoundError) exactly when no position of
  the grid has index \<open>i\<close>, and raises nothing else; otherwise it returns a position of the
  grid whose index is \<open>i\<close>, the first one in the order of the list. On the default grid
  \<^verbatim>\<open>get(99)\<close> raises. \<^verbatim>\<open>compare_grids(a, b)\<close> raises \<^verbatim>\<open>KeyError\<close> exactly when some index of
  \<open>a\<close> is not an index of \<open>b\<close>, and raises nothing else.
\<close>

theorem get_by_index:
  "(get g i = Inl KeyError \<longleftrightarrow> i \<notin> index ` set (positions g))
   \<and> (\<forall>e. get g i = Inl e \<longrightarrow> e = KeyError)
   \<and> (\<forall>p. get g i = Inr p \<longleftrightarrow>
          (\<exists>pre post. positions g = pre @ p # post \<and> index p = i \<and> i \<notin> index ` set pre))
   \<and> get default_grid 99 = Inl KeyError
   \<and> (compare_grids rf a b = Inl KeyError \<longleftrightarrow>
          (\<exists>pa \<in> set (positions a). index pa \<notin> index ` set (positions b)))
   \<and> (\<forall>e. compare_grids rf a b = Inl e \<longrightarrow> e = KeyError)"
proof -
  have "get default_grid 99 = Inl KeyError"
    by (simp add: get_def default_grid_def default_positions_def)
  then show ?thesis
    by (simp add: get_def get_loop_Inl_iff get_loop_Inr_iff compare_grids_Inl_iff)
qed

theorem get_by_index_witness:
  "99 \<notin> index ` set (positions default_grid)
   \<and> get default_grid 99 = Inl KeyError
   \<and> (\<exists>pa \<in> set (positions default_grid). index pa \<notin> index ` set (positions empty_grid))
   \<and> compare_grids fmt2f default_grid empty_grid = Inl KeyError
   \<and> get default_grid 4 = Inr (positions default_grid ! 4)"
proof -
  have a: "99 \<notin> index ` set (positions default_grid)"
    by (simp add: default_grid_def default_positions_def)
  have "positions default_grid \<noteq> []"
    by (simp add: default_grid_def default_positions_def)
  then have "hd (positions default_grid) \<in> set (positions default_grid)"
    by simp
  moreover have "index (hd (positions default_grid)) \<notin> index ` set (positions empty_grid)"
    by (simp add: empty_grid_def)
  ultimately have b:
    "\<exists>pa \<in> set (positions default_grid). index pa \<notin> index ` set (positions empty_grid)"
    by blast
  have c: "positions default_grid =
             take 4 (positions default_grid) @ (positions default_grid ! 4) # drop 5 (positions default_grid)
           \<and> index (positions default_grid ! 4) = 4
           \<and> 4 \<notin> index ` set (take 4 (positions default_grid))"
    by (simp add: default_grid_def default_positions_def)
  note t = get_by_index [of default_grid 99 fmt2f default_grid empty_grid]
  note u = get_by_index [of default_grid 4 fmt2f default_grid empty_grid]
  from u c have d: "get default_grid 4 = Inr (positions default_grid ! 4)"
    by blast
  from t a b d show ?thesis
    by blast
qed

section \<open>Double-precision arithmetic\<close>

text \<open>Powers of two and the exponent of a positive number.\<close>

lemma pow2_pos: "0 < pow2 k"
  by (simp add: pow2_def)

lemma pow2_power_int: "pow2 k = power_int 2 k"
  by (simp add: pow2_def power_int_def field_simps)

lemma pow2_add: "pow2 (j + k) = pow2 j * pow2 k"
  by (simp add: pow2_power_int power_int_add)

lemma pow2_mono: "j \<le> k \<Longrightarrow> pow2 j \<le> pow2 k"
  by (simp add: pow2_power_int power_int_increasing)

lemma pow2_strict_mono: "j < k \<Longrightarrow> pow2 j < pow2 k"
  by (simp add: pow2_power_int power_int_strict_increasing)

lemma pow2_nat: "0 \<le> k \<Longrightarrow> pow2 k = 2 ^ nat k"
  by (simp add: pow2_def)

lemma pow2_neg: "0 \<le> k \<Longrightarrow> pow2 (- k) = 1 / 2 ^ nat k"
  by (cases "k = 0") (simp_all add: pow2_def)

text \<open>\<open>binade x\<close> is the exponent of a positive \<open>x\<close>.\<close>

lemma binade_ge1:
  assumes "1 \<le> x"
  shows "pow2 (binade x) \<le> x \<and> x < pow2 (binade x + 1)"
proof -
  let ?n = "\<lfloor>x\<rfloor>"
  have n: "0 < ?n" using assms by simp
  from bitlen_bounds [OF n] have lo: "2 ^ nat (bitlen ?n - 1) \<le> ?n" and hi: "?n < 2 ^ nat (bitlen ?n)"
    by simp_all
  have bl: "1 \<le> bitlen ?n"
    using n bitlen_eq_zero_iff [of ?n] bitlen_nonneg [of ?n] by linarith
  have "(of_int (2 ^ nat (bitlen ?n - 1)) :: rat) \<le> of_int ?n"
    using lo by (simp only: of_int_le_iff)
  also have "\<dots> \<le> x" by simp
  finally have a: "pow2 (bitlen ?n - 1) \<le> x"
    using bl by (simp add: pow2_nat)
  from hi have "?n + 1 \<le> 2 ^ nat (bitlen ?n)" by simp
  then have "(of_int (?n + 1) :: rat) \<le> of_int (2 ^ nat (bitlen ?n))"
    by (simp only: of_int_le_iff)
  moreover have "x < of_int (?n + 1)" by linarith
  ultimately have "x < of_int (2 ^ nat (bitlen ?n))" by linarith
  then have b: "x < pow2 (bitlen ?n)"
    using bl by (simp add: pow2_nat)
  from a b assms show ?thesis by (simp add: binade_def)
qed

lemma binade_lt1:
  assumes "0 < x" and "x < 1"
  shows "pow2 (binade x) \<le> x \<and> x < pow2 (binade x + 1)"
proof -
  let ?m = "\<lceil>1 / x\<rceil>"
  let ?k = "bitlen (?m - 1)"
  have y: "1 < 1 / x" using assms by simp
  then have m: "0 < ?m - 1" by linarith
  from bitlen_bounds [OF m] have lo: "2 ^ nat (?k - 1) \<le> ?m - 1" and hi: "?m - 1 < 2 ^ nat ?k"
    by simp_all
  have k: "1 \<le> ?k"
    using m bitlen_eq_zero_iff [of "?m - 1"] bitlen_nonneg [of "?m - 1"] by linarith
  from hi have "?m \<le> 2 ^ nat ?k" by simp
  then have "(of_int ?m :: rat) \<le> of_int (2 ^ nat ?k)"
    by (simp only: of_int_le_iff)
  moreover have "1 / x \<le> of_int ?m" by simp
  moreover have "(of_int (2 ^ nat ?k) :: rat) = 2 ^ nat ?k" by simp
  ultimately have "1 / x \<le> 2 ^ nat ?k" by linarith
  then have "1 \<le> 2 ^ nat ?k * x"
    using assms(1) by (simp add: field_simps)
  then have a: "pow2 (- ?k) \<le> x"
    using k by (simp add: pow2_neg field_simps)
  have "(of_int (2 ^ nat (?k - 1)) :: rat) \<le> of_int (?m - 1)"
    using lo by (simp only: of_int_le_iff)
  moreover have "of_int (?m - 1) < 1 / x" by linarith
  moreover have "(of_int (2 ^ nat (?k - 1)) :: rat) = 2 ^ nat (?k - 1)" by simp
  ultimately have "2 ^ nat (?k - 1) < 1 / x" by linarith
  then have "2 ^ nat (?k - 1) * x < 1"
    using assms(1) by (simp add: field_simps)
  then have "x < 1 / 2 ^ nat (?k - 1)"
    by (simp add: field_simps)
  moreover have "pow2 (- ?k + 1) = 1 / 2 ^ nat (?k - 1)"
    using k pow2_neg [of "?k - 1"] by simp
  ultimately have b: "x < pow2 (- ?k + 1)" by simp
  from a b assms show ?thesis by (simp add: binade_def)
qed

lemma binade_bounds: "0 < x \<Longrightarrow> pow2 (binade x) \<le> x \<and> x < pow2 (binade x + 1)"
  using binade_ge1 [of x] binade_lt1 [of x] by (cases "1 \<le> x") simp_all

lemma binade_unique:
  assumes "pow2 e \<le> x" and "x < pow2 (e + 1)"
  shows "binade x = e"
proof -
  have x: "0 < x" using assms(1) pow2_pos [of e] by linarith
  note b = binade_bounds [OF x]
  have "\<not> binade x < e"
  proof
    assume "binade x < e"
    then have "pow2 (binade x + 1) \<le> pow2 e" by (intro pow2_mono) simp
    with b assms(1) show False by linarith
  qed
  moreover have "\<not> e < binade x"
  proof
    assume "e < binade x"
    then have "pow2 (e + 1) \<le> pow2 (binade x)" by (intro pow2_mono) simp
    with b assms(2) show False by linarith
  qed
  ultimately show ?thesis by simp
qed

lemma binade_mono:
  assumes "0 < x" and "x \<le> y"
  shows "binade x \<le> binade y"
proof (rule ccontr)
  assume "\<not> binade x \<le> binade y"
  then have "pow2 (binade y + 1) \<le> pow2 (binade x)" by (intro pow2_mono) simp
  moreover have "0 < y" using assms by simp
  ultimately show False
    using binade_bounds [OF assms(1)] binade_bounds [of y] assms(2) by linarith
qed

text \<open>Rounding to the nearest integer.\<close>

lemma round_ties_even_cases:
  "round_ties_even y = \<lfloor>y\<rfloor> \<and> y - of_int \<lfloor>y\<rfloor> \<le> 1 / 2
   \<or> round_ties_even y = \<lfloor>y\<rfloor> + 1 \<and> 1 / 2 \<le> y - of_int \<lfloor>y\<rfloor>"
  by (auto simp: round_ties_even_def Let_def)

lemma round_ties_even_of_int: "round_ties_even (of_int n) = n"
  by (simp add: round_ties_even_def)

lemma round_ties_even_mono:
  assumes "x \<le> y"
  shows "round_ties_even x \<le> round_ties_even y"
proof (cases "\<lfloor>x\<rfloor> = \<lfloor>y\<rfloor>")
  case True
  with assms have "x - of_int \<lfloor>x\<rfloor> \<le> y - of_int \<lfloor>y\<rfloor>" by simp
  with True show ?thesis
    by (auto simp: round_ties_even_def Let_def)
next
  case False
  with assms have "\<lfloor>x\<rfloor> + 1 \<le> \<lfloor>y\<rfloor>"
    using floor_mono [OF assms] by linarith
  moreover have "round_ties_even x \<le> \<lfloor>x\<rfloor> + 1"
    using round_ties_even_cases [of x] by linarith
  moreover have "\<lfloor>y\<rfloor> \<le> round_ties_even y"
    using round_ties_even_cases [of y] by linarith
  ultimately show ?thesis by linarith
qed

lemma round_ties_even_near: "\<bar>of_int (round_ties_even y) - y\<bar> \<le> 1 / 2"
proof -
  have b: "of_int \<lfloor>y\<rfloor> \<le> y" "y < of_int \<lfloor>y\<rfloor> + 1" by linarith+
  from round_ties_even_cases [of y] show ?thesis
  proof
    assume a: "round_ties_even y = \<lfloor>y\<rfloor> \<and> y - of_int \<lfloor>y\<rfloor> \<le> 1 / 2"
    then have "of_int (round_ties_even y) - y = of_int \<lfloor>y\<rfloor> - y" by simp
    with a b show ?thesis by linarith
  next
    assume a: "round_ties_even y = \<lfloor>y\<rfloor> + 1 \<and> 1 / 2 \<le> y - of_int \<lfloor>y\<rfloor>"
    then have "of_int (round_ties_even y) - y = of_int \<lfloor>y\<rfloor> + 1 - y" by simp
    with a b show ?thesis by linarith
  qed
qed

text \<open>Rounding to the nearest double keeps the sign and the order.\<close>

lemma round_double_0: "round_double 0 = 0"
  by (simp add: round_double_def)

lemma round_double_minus: "round_double (- x) = - round_double x"
  by (simp add: round_double_def Let_def)

lemma round_double_pos_eq:
  "0 < x \<Longrightarrow>
     round_double x =
       of_int (round_ties_even (x / pow2 (max (binade x - 52) (- 1074))))
       * pow2 (max (binade x - 52) (- 1074))"
  by (simp add: round_double_def Let_def)

lemma round_double_nonneg: "0 \<le> x \<Longrightarrow> 0 \<le> round_double x"
proof (cases "x = 0")
  case True
  then show ?thesis by (simp add: round_double_0)
next
  case False
  assume "0 \<le> x"
  with False have x: "0 < x" by simp
  let ?q = "max (binade x - 52) (- 1074)"
  have "0 \<le> x / pow2 ?q" using x pow2_pos [of ?q] by simp
  then have "round_ties_even 0 \<le> round_ties_even (x / pow2 ?q)"
    by (rule round_ties_even_mono)
  then have "0 \<le> round_ties_even (x / pow2 ?q)"
    using round_ties_even_of_int [of 0] by simp
  then show ?thesis
    using pow2_pos [of ?q] by (simp add: round_double_pos_eq [OF x])
qed

lemma round_double_nonpos: "x \<le> 0 \<Longrightarrow> round_double x \<le> 0"
  using round_double_nonneg [of "- x"] by (simp add: round_double_minus)

lemma pow2_quot:
  assumes "q \<le> k"
  shows "pow2 k / pow2 q = of_int (2 ^ nat (k - q))"
proof -
  have "pow2 k = pow2 (k - q) * pow2 q"
    using pow2_add [of "k - q" q] by simp
  moreover have "pow2 (k - q) = 2 ^ nat (k - q)"
    using assms by (simp add: pow2_def)
  ultimately show ?thesis
    using pow2_pos [of q] by simp
qed

lemma round_double_le_pow2:
  assumes x: "0 < x" and q: "max (binade x - 52) (- 1074) \<le> k" and le: "x \<le> pow2 k"
  shows "round_double x \<le> pow2 k"
proof -
  let ?q = "max (binade x - 52) (- 1074)"
  have p: "0 < pow2 ?q" by (rule pow2_pos)
  have "x / pow2 ?q \<le> pow2 k / pow2 ?q"
    using le p by (simp add: divide_right_mono)
  then have "x / pow2 ?q \<le> of_int (2 ^ nat (k - ?q))"
    by (simp only: pow2_quot [OF q])
  then have "round_ties_even (x / pow2 ?q) \<le> round_ties_even (of_int (2 ^ nat (k - ?q)))"
    by (rule round_ties_even_mono)
  then have "round_ties_even (x / pow2 ?q) \<le> 2 ^ nat (k - ?q)"
    by (simp only: round_ties_even_of_int)
  then have "(of_int (round_ties_even (x / pow2 ?q)) :: rat) \<le> of_int (2 ^ nat (k - ?q))"
    by (simp only: of_int_le_iff)
  then have "of_int (round_ties_even (x / pow2 ?q)) * pow2 ?q \<le> of_int (2 ^ nat (k - ?q)) * pow2 ?q"
    using p by (simp only: mult_le_cancel_right_pos)
  moreover have "of_int (2 ^ nat (k - ?q)) * pow2 ?q = pow2 k"
    using pow2_quot [OF q] p by (simp add: field_simps)
  ultimately show ?thesis
    by (simp only: round_double_pos_eq [OF x])
qed

lemma round_double_ge_pow2:
  assumes x: "0 < x" and q: "max (binade x - 52) (- 1074) \<le> k" and le: "pow2 k \<le> x"
  shows "pow2 k \<le> round_double x"
proof -
  let ?q = "max (binade x - 52) (- 1074)"
  have p: "0 < pow2 ?q" by (rule pow2_pos)
  have "pow2 k / pow2 ?q \<le> x / pow2 ?q"
    using le p by (simp add: divide_right_mono)
  then have "of_int (2 ^ nat (k - ?q)) \<le> x / pow2 ?q"
    by (simp only: pow2_quot [OF q])
  then have "round_ties_even (of_int (2 ^ nat (k - ?q))) \<le> round_ties_even (x / pow2 ?q)"
    by (rule round_ties_even_mono)
  then have "2 ^ nat (k - ?q) \<le> round_ties_even (x / pow2 ?q)"
    by (simp only: round_ties_even_of_int)
  then have "(of_int (2 ^ nat (k - ?q)) :: rat) \<le> of_int (round_ties_even (x / pow2 ?q))"
    by (simp only: of_int_le_iff)
  then have "of_int (2 ^ nat (k - ?q)) * pow2 ?q \<le> of_int (round_ties_even (x / pow2 ?q)) * pow2 ?q"
    using p by (simp only: mult_le_cancel_right_pos)
  moreover have "of_int (2 ^ nat (k - ?q)) * pow2 ?q = pow2 k"
    using pow2_quot [OF q] p by (simp add: field_simps)
  ultimately show ?thesis
    by (simp only: round_double_pos_eq [OF x])
qed

lemma round_double_mono_pos:
  assumes x: "0 < x" and xy: "x \<le> y"
  shows "round_double x \<le> round_double y"
proof -
  have y: "0 < y" using x xy by simp
  let ?qx = "max (binade x - 52) (- 1074)"
  let ?qy = "max (binade y - 52) (- 1074)"
  have bm: "binade x \<le> binade y" using binade_mono [OF x xy] .
  show ?thesis
  proof (cases "?qx = ?qy")
    case True
    have p: "0 < pow2 ?qy" by (rule pow2_pos)
    have "x / pow2 ?qy \<le> y / pow2 ?qy"
      using xy p by (simp add: divide_right_mono)
    then have "round_ties_even (x / pow2 ?qy) \<le> round_ties_even (y / pow2 ?qy)"
      by (rule round_ties_even_mono)
    then have "(of_int (round_ties_even (x / pow2 ?qy)) :: rat) \<le> of_int (round_ties_even (y / pow2 ?qy))"
      by (simp only: of_int_le_iff)
    then have "of_int (round_ties_even (x / pow2 ?qy)) * pow2 ?qy
                 \<le> of_int (round_ties_even (y / pow2 ?qy)) * pow2 ?qy"
      using p by (simp only: mult_le_cancel_right_pos)
    then show ?thesis
      using True by (simp only: round_double_pos_eq [OF x] round_double_pos_eq [OF y])
  next
    case False
    with bm have lt: "binade x < binade y" and qy: "?qy = binade y - 52" and qq: "?qx < ?qy"
      by (auto simp: max_def split: if_splits)
    have k1: "?qx \<le> binade y" using qq qy by linarith
    have k2: "?qy \<le> binade y" using qy by linarith
    have "x < pow2 (binade x + 1)" using binade_bounds [OF x] by simp
    moreover have "pow2 (binade x + 1) \<le> pow2 (binade y)"
      using lt by (intro pow2_mono) simp
    ultimately have "x \<le> pow2 (binade y)" by simp
    from round_double_le_pow2 [OF x k1 this]
    have a: "round_double x \<le> pow2 (binade y)" .
    have "pow2 (binade y) \<le> y" using binade_bounds [OF y] by simp
    from round_double_ge_pow2 [OF y k2 this]
    have b: "pow2 (binade y) \<le> round_double y" .
    from a b show ?thesis by simp
  qed
qed

lemma round_double_mono:
  assumes "x \<le> y"
  shows "round_double x \<le> round_double y"
proof -
  consider "0 < x" | "x \<le> 0" "0 \<le> y" | "y < 0" by linarith
  then show ?thesis
  proof cases
    case 1
    then show ?thesis using assms by (rule round_double_mono_pos)
  next
    case 2
    then show ?thesis
      using round_double_nonpos [of x] round_double_nonneg [of y] by simp
  next
    case 3
    then have "0 < - y" "- y \<le> - x" using assms by simp_all
    then have "round_double (- y) \<le> round_double (- x)" by (rule round_double_mono_pos)
    then show ?thesis by (simp add: round_double_minus)
  qed
qed

text \<open>
  The float difference of a number and itself is zero, and the float difference has the
  sign of the exact one or is zero.
\<close>

lemma float_sub_self: "float_sub x x = 0"
  by (simp add: float_sub_def round_double_0)

lemma float_sub_nonneg: "b \<le> a \<Longrightarrow> 0 \<le> float_sub a b"
  using round_double_mono [of b a] by (simp add: float_sub_def round_double_nonneg)

lemma float_sub_nonpos: "a \<le> b \<Longrightarrow> float_sub a b \<le> 0"
  using round_double_mono [of a b] by (simp add: float_sub_def round_double_nonpos)

text \<open>
  A double is rounded to itself: \<open>round_double\<close> changes nothing in a value it has
  produced, so \<open>float_sub\<close> on two doubles is the rounded exact difference.
\<close>

lemma round_double_fix_lt:
  assumes n: "0 < n" "n < 2 ^ 53" and q: "- 1074 \<le> q"
  shows "round_double (of_int n * pow2 q) = of_int n * pow2 q"
proof -
  let ?r = "of_int n * pow2 q :: rat"
  let ?q = "max (binade ?r - 52) (- 1074)"
  have r: "0 < ?r" using n(1) pow2_pos [of q] by simp
  have "(of_int n :: rat) < of_int (2 ^ 53)" using n(2) by (simp only: of_int_less_iff)
  then have "(of_int n :: rat) < pow2 53" by (simp add: pow2_def)
  then have "?r < pow2 53 * pow2 q" using pow2_pos [of q] by simp
  then have "?r < pow2 (q + 53)" using pow2_add [of 53 q] by (simp add: add.commute)
  moreover have "pow2 (binade ?r) \<le> ?r" using binade_bounds [OF r] by simp
  ultimately have "pow2 (binade ?r) < pow2 (q + 53)" by simp
  then have "binade ?r < q + 53"
    using pow2_mono [of "q + 53" "binade ?r"] by (cases "binade ?r < q + 53") simp_all
  with q have qq: "?q \<le> q" by simp
  have "?r / pow2 ?q = of_int n * (pow2 q / pow2 ?q)" by simp
  also have "\<dots> = of_int n * of_int (2 ^ nat (q - ?q))" by (simp only: pow2_quot [OF qq])
  also have "\<dots> = of_int (n * 2 ^ nat (q - ?q))" by simp
  finally have d: "?r / pow2 ?q = of_int (n * 2 ^ nat (q - ?q))" .
  have "round_double ?r = of_int (round_ties_even (?r / pow2 ?q)) * pow2 ?q"
    by (rule round_double_pos_eq [OF r])
  also have "\<dots> = of_int (n * 2 ^ nat (q - ?q)) * pow2 ?q"
    by (simp only: d round_ties_even_of_int)
  also have "\<dots> = of_int n * (of_int (2 ^ nat (q - ?q)) * pow2 ?q)" by simp
  also have "of_int (2 ^ nat (q - ?q)) * pow2 ?q = pow2 q"
    using pow2_quot [OF qq] pow2_pos [of ?q] by (simp add: field_simps)
  finally show ?thesis .
qed

lemma round_double_fix:
  assumes n: "0 \<le> n" "n \<le> 2 ^ 53" and q: "- 1074 \<le> q"
  shows "round_double (of_int n * pow2 q) = of_int n * pow2 q"
proof -
  consider "n = 0" | "0 < n" "n < 2 ^ 53" | "n = 2 ^ 53" using n by linarith
  then show ?thesis
  proof cases
    case 1
    then show ?thesis by (simp add: round_double_0)
  next
    case 2
    then show ?thesis using q by (rule round_double_fix_lt)
  next
    case 3
    have "(of_int n :: rat) = pow2 53" using 3 by (simp add: pow2_def)
    then have "of_int n * pow2 q = pow2 52 * pow2 (q + 1)"
      using pow2_add [of 53 q] pow2_add [of 52 "q + 1"] by (simp add: add.commute add.left_commute)
    also have "pow2 52 = of_int (2 ^ 52)" by (simp add: pow2_def)
    finally have e: "of_int n * pow2 q = of_int (2 ^ 52) * pow2 (q + 1)" .
    have "round_double (of_int (2 ^ 52) * pow2 (q + 1)) = of_int (2 ^ 52) * pow2 (q + 1)"
      using q by (intro round_double_fix_lt) simp_all
    then show ?thesis by (simp only: e)
  qed
qed

lemma round_double_idem_pos:
  assumes x: "0 < x"
  shows "round_double (round_double x) = round_double x"
proof -
  let ?q = "max (binade x - 52) (- 1074)"
  let ?n = "round_ties_even (x / pow2 ?q)"
  have p: "0 < pow2 ?q" by (rule pow2_pos)
  have "0 \<le> x / pow2 ?q" using x p by simp
  then have "round_ties_even (of_int 0) \<le> ?n" by (intro round_ties_even_mono) simp
  then have n0: "0 \<le> ?n" by (simp only: round_ties_even_of_int)
  have "x < pow2 (binade x + 1)" using binade_bounds [OF x] by simp
  also have "pow2 (binade x + 1) \<le> pow2 (?q + 53)" by (intro pow2_mono) simp
  also have "pow2 (?q + 53) = pow2 53 * pow2 ?q" using pow2_add [of 53 ?q] by (simp add: add.commute)
  finally have "x / pow2 ?q < pow2 53" using p by (simp add: field_simps)
  then have "x / pow2 ?q \<le> of_int (2 ^ 53)" by (simp add: pow2_def)
  then have "?n \<le> round_ties_even (of_int (2 ^ 53))" by (rule round_ties_even_mono)
  then have n1: "?n \<le> 2 ^ 53" by (simp only: round_ties_even_of_int)
  have "round_double (of_int ?n * pow2 ?q) = of_int ?n * pow2 ?q"
    using n0 n1 by (intro round_double_fix) simp_all
  then show ?thesis by (simp only: round_double_pos_eq [OF x])
qed

lemma round_double_idem: "round_double (round_double x) = round_double x"
proof -
  consider "0 < x" | "x = 0" | "0 < - x" by linarith
  then show ?thesis
  proof cases
    case 1
    then show ?thesis by (rule round_double_idem_pos)
  next
    case 2
    then show ?thesis by (simp add: round_double_0)
  next
    case 3
    from round_double_idem_pos [OF this] show ?thesis
      by (simp add: round_double_minus)
  qed
qed

text \<open>Evaluation on numerals.\<close>

lemma floor_rat_numeral: "\<lfloor>numeral a / numeral b :: rat\<rfloor> = numeral a div numeral b"
  by (metis floor_divide_of_int_eq of_int_numeral)

lemma ceiling_rat_numeral: "\<lceil>numeral a / numeral b :: rat\<rceil> = - (- numeral a div numeral b)"
  by (metis ceiling_def divide_minus_left floor_divide_of_int_eq of_int_minus of_int_numeral)

lemma bitlen_Bit0: "bitlen (numeral (Num.Bit0 n)) = bitlen (numeral n) + 1"
  by (subst compute_bitlen) simp

lemma bitlen_Bit1: "bitlen (numeral (Num.Bit1 n)) = bitlen (numeral n) + 1"
  by (subst compute_bitlen) simp

lemma bitlen_1: "bitlen 1 = 1"
  by (subst compute_bitlen) simp

lemmas float_eval = round_double_def binade_def pow2_def round_ties_even_def Let_def
  bitlen_Bit0 bitlen_Bit1 bitlen_1 floor_rat_numeral ceiling_rat_numeral

text \<open>
  The literal \<^verbatim>\<open>0.01\<close> is the double \<open>5764607523034235 / 2 ^ 59\<close>, a little above one
  hundredth.
\<close>

lemma double_001_value: "double_001 = 5764607523034235 / 2 ^ 59"
  by (simp add: double_001_def float_eval)

lemma double_001_pos: "0 < double_001"
  by (simp add: double_001_value)

lemma double_001_not_neg: "\<not> double_001 < 0"
  by (simp add: double_001_value)

lemma double_001_above: "1 / 100 < double_001"
  by (simp add: double_001_value)

text \<open>
  The float decision is not the exact one. The floats \<^verbatim>\<open>0.51\<close> and \<^verbatim>\<open>0.5\<close> differ by
  more than \<^verbatim>\<open>0.01\<close>, although the decimals they are written as differ by one hundredth
  exactly; the float \<^verbatim>\<open>0.01\<close> and zero do not differ by more than \<^verbatim>\<open>0.01\<close>, although the
  float \<^verbatim>\<open>0.01\<close> is greater than one hundredth.
\<close>

lemma float_threshold_above: "double_001 < \<bar>float_sub (51 / 100) (1 / 2)\<bar>"
  by (simp add: double_001_value float_sub_def float_eval)

lemma float_threshold_literal: "\<not> double_001 < \<bar>float_sub (1 / 100) 0\<bar>"
  by (simp add: double_001_value float_sub_def float_eval)

lemma float_threshold_double: "\<not> double_001 < \<bar>float_sub (5764607523034235 / 2 ^ 59) 0\<bar>"
  by (simp add: double_001_value float_sub_def float_eval)

section \<open>Comparison of grids\<close>

lemma compare_loop_Inr:
  "\<forall>pa \<in> set ps. index pa \<in> index ` set (positions b) \<Longrightarrow>
     compare_loop b ps lines = Inr (lines @ concat (map (position_diff b) ps))"
proof (induction ps arbitrary: lines)
  case Nil
  then show ?case by simp
next
  case (Cons pa rest)
  then obtain pb where pb: "get b (index pa) = Inr pb"
    using get_Inr_of_present [of "index pa" b] by auto
  from Cons.prems have "\<forall>pa \<in> set rest. index pa \<in> index ` set (positions b)"
    by simp
  from Cons.IH [OF this] pb show ?case
    by (simp add: position_diff_def)
qed

lemma position_diff_self:
  assumes "distinct (map index (positions g))" and "pa \<in> set (positions g)"
  shows "position_diff g pa = []"
proof -
  from assms(2) obtain k where k: "k < length (positions g)" "positions g ! k = pa"
    by (auto simp: in_set_conv_nth)
  from get_loop_nth_distinct [OF assms(1) k(1)] k(2) have "get g (index pa) = Inr pa"
    by (simp add: get_def)
  then show ?thesis
    by (simp add: position_diff_def float_sub_self double_001_not_neg)
qed

lemma concat_map_all_Nil: "\<forall>x \<in> set xs. f x = [] \<Longrightarrow> concat (map f xs) = []"
  by (induction xs) auto

lemma diff_line_up:
  assumes "bias pb < bias pa" and "double_001 < \<bar>float_sub (bias pa) (bias pb)\<bar>"
  shows "suffix (str '' ['' @ [8593] @ fmt2f \<bar>float_sub (bias pa) (bias pb)\<bar> @ str '']'')
           (diff_line pa pb)"
proof -
  have "0 \<le> float_sub (bias pa) (bias pb)"
    using assms(1) by (intro float_sub_nonneg) simp
  with assms(2) double_001_pos have "0 < float_sub (bias pa) (bias pb)"
    by linarith
  then show ?thesis
    by (simp add: diff_line_def suffix_def Let_def)
qed

lemma diff_line_down:
  assumes "bias pa < bias pb"
  shows "suffix (str '' ['' @ [8595] @ fmt2f \<bar>float_sub (bias pa) (bias pb)\<bar> @ str '']'')
           (diff_line pa pb)"
proof -
  have "float_sub (bias pa) (bias pb) \<le> 0"
    using assms by (intro float_sub_nonpos) simp
  then have "\<not> 0 < float_sub (bias pa) (bias pb)"
    by linarith
  then show ?thesis
    by (simp add: diff_line_def suffix_def Let_def)
qed

text \<open>One bias changed.\<close>

lemma position_diff_changed:
  assumes d: "distinct (map index ps)" and k: "k < length ps"
    and b: "positions b = ps[k := (ps ! k)\<lparr>bias := x\<rparr>]"
  shows "j < length ps \<Longrightarrow> position_diff b (ps ! j) =
           (if j = k \<and> double_001 < \<bar>float_sub (bias (ps ! k)) x\<bar>
            then [diff_line (ps ! k) ((ps ! k)\<lparr>bias := x\<rparr>)] else [])"
proof -
  assume j: "j < length ps"
  let ?qs = "ps[k := (ps ! k)\<lparr>bias := x\<rparr>]"
  have idx: "map index ?qs = map index ps"
    using k by (simp add: list_eq_iff_nth_eq nth_list_update)
  then have dq: "distinct (map index ?qs)" using d by simp
  have jq: "j < length ?qs" using j by simp
  have same: "index (?qs ! j) = index (ps ! j)"
    using j k by (simp add: nth_list_update)
  from get_loop_nth_distinct [OF dq jq] same
  have g: "get b (index (ps ! j)) = Inr (?qs ! j)"
    by (simp add: get_def b)
  show ?thesis
  proof (cases "j = k")
    case True
    with g k show ?thesis by (simp add: position_diff_def)
  next
    case False
    with g j show ?thesis
      by (simp add: position_diff_def float_sub_self double_001_not_neg)
  qed
qed

lemma concat_map_single:
  assumes "k < length xs" and "\<And>j. j < length xs \<Longrightarrow> f (xs ! j) = (if j = k then ys else [])"
  shows "concat (map f xs) = ys"
proof -
  have xs: "xs = take k xs @ xs ! k # drop (Suc k) xs"
    using assms(1) by (simp add: id_take_nth_drop)
  have a: "\<forall>x \<in> set (take k xs). f x = []"
  proof
    fix x assume "x \<in> set (take k xs)"
    then obtain j where "j < length (take k xs)" "take k xs ! j = x"
      by (auto simp: in_set_conv_nth)
    then have "j < k" "j < length xs" "xs ! j = x" using assms(1) by auto
    with assms(2) [of j] show "f x = []" by simp
  qed
  have b: "\<forall>x \<in> set (drop (Suc k) xs). f x = []"
  proof
    fix x assume "x \<in> set (drop (Suc k) xs)"
    then obtain j where j: "j < length (drop (Suc k) xs)" "drop (Suc k) xs ! j = x"
      by (auto simp: in_set_conv_nth)
    then have "Suc k + j < length xs" "xs ! (Suc k + j) = x" by auto
    with assms(2) [of "Suc k + j"] show "f x = []" by simp
  qed
  have c1: "concat (map f (take k xs)) = []"
    using a by (rule concat_map_all_Nil)
  have c2: "concat (map f (drop (Suc k) xs)) = []"
    using b by (rule concat_map_all_Nil)
  have fk: "f (xs ! k) = ys"
    using assms(2) [OF assms(1)] by simp
  have "concat (map f xs) = concat (map f (take k xs)) @ f (xs ! k) @ concat (map f (drop (Suc k) xs))"
    by (subst xs) simp
  then show ?thesis
    by (simp only: c1 c2 fk append_Nil append_Nil2)
qed

lemma compare_lines_Inr:
  "\<forall>pa \<in> set (positions a). index pa \<in> index ` set (positions b) \<Longrightarrow>
     compare_lines rf a b =
       Inr (compare_header a b @ concat (map (position_diff b) (positions a)) @ compare_footer rf a b)"
  by (simp add: compare_lines_def compare_loop_Inr)

lemma compare_lines_self:
  assumes "distinct (map index (positions g))"
  shows "compare_lines rf g g = Inr (compare_header g g @ compare_footer rf g g)"
proof -
  have "concat (map (position_diff g) (positions g)) = []"
    using position_diff_self [OF assms] by (intro concat_map_all_Nil) simp
  moreover have "\<forall>pa \<in> set (positions g). index pa \<in> index ` set (positions g)"
    by simp
  ultimately show ?thesis
    using compare_lines_Inr [of g g rf] by simp
qed

lemma compare_lines_one_change:
  assumes d: "distinct (map index (positions a))" and k: "k < length (positions a)"
    and b: "positions b = (positions a)[k := (positions a ! k)\<lparr>bias := x\<rparr>]"
    and x: "double_001 < \<bar>float_sub (bias (positions a ! k)) x\<bar>"
  shows "compare_lines rf a b =
           Inr (compare_header a b @ [diff_line (positions a ! k) ((positions a ! k)\<lparr>bias := x\<rparr>)]
                @ compare_footer rf a b)"
proof -
  have idx: "map index (positions b) = map index (positions a)"
    using k by (simp add: b list_eq_iff_nth_eq nth_list_update)
  have "index ` set (positions b) = index ` set (positions a)"
    using arg_cong [OF idx, of set] by simp
  then have pres: "\<forall>pa \<in> set (positions a). index pa \<in> index ` set (positions b)"
    by simp
  have "concat (map (position_diff b) (positions a)) =
          [diff_line (positions a ! k) ((positions a ! k)\<lparr>bias := x\<rparr>)]"
    using position_diff_changed [OF d k b] x by (intro concat_map_single [OF k]) simp
  with compare_lines_Inr [OF pres, of rf] show ?thesis by simp
qed

text \<open>
  C3, as amended. When every index of \<open>a\<close> is an index of \<open>b\<close>, the lines of
  \<^verbatim>\<open>compare_grids(a, b)\<close> are the two header lines, then for each position of \<open>a\<close> in order
  what \<open>position_diff\<close> gives, then the three closing lines. For a position of \<open>a\<close> and
  the position \<^verbatim>\<open>b.get\<close> returns for its index, \<open>position_diff\<close> gives one line exactly
  when the float difference of the two biases exceeds the float \<^verbatim>\<open>0.01\<close> in absolute
  value. Such a line ends with the up arrow and the absolute float difference when the
  bias in \<open>a\<close> is the greater; a line ends with the down arrow and the absolute float
  difference when the bias in \<open>b\<close> is the greater. A grid whose indices are pairwise
  distinct, compared with itself, gives no diff line. If the indices of \<open>a\<close> are pairwise
  distinct and \<open>b\<close> has the positions of \<open>a\<close> except that one bias is changed, the float
  difference exceeding \<^verbatim>\<open>0.01\<close>, there is exactly one diff line, the one of that position.
\<close>

theorem compare_grids_diff_lines:
  "((\<forall>pa \<in> set (positions a). index pa \<in> index ` set (positions b)) \<longrightarrow>
      compare_lines rf a b =
        Inr (compare_header a b @ concat (map (position_diff b) (positions a))
             @ compare_footer rf a b))
   \<and> (\<forall>pa pb. get b (index pa) = Inr pb \<longrightarrow>
         position_diff b pa =
           (if double_001 < \<bar>float_sub (bias pa) (bias pb)\<bar> then [diff_line pa pb] else []))
   \<and> (\<forall>pa pb. bias pb < bias pa \<and> double_001 < \<bar>float_sub (bias pa) (bias pb)\<bar> \<longrightarrow>
         suffix (str '' ['' @ [8593] @ fmt2f \<bar>float_sub (bias pa) (bias pb)\<bar> @ str '']'')
           (diff_line pa pb))
   \<and> (\<forall>pa pb. bias pa < bias pb \<longrightarrow>
         suffix (str '' ['' @ [8595] @ fmt2f \<bar>float_sub (bias pa) (bias pb)\<bar> @ str '']'')
           (diff_line pa pb))
   \<and> (distinct (map index (positions a)) \<longrightarrow>
         compare_lines rf a a = Inr (compare_header a a @ compare_footer rf a a))
   \<and> (distinct (map index (positions a)) \<and> k < length (positions a)
        \<and> positions b = (positions a)[k := (positions a ! k)\<lparr>bias := x\<rparr>]
        \<and> double_001 < \<bar>float_sub (bias (positions a ! k)) x\<bar> \<longrightarrow>
         compare_lines rf a b =
           Inr (compare_header a b
                @ [diff_line (positions a ! k) ((positions a ! k)\<lparr>bias := x\<rparr>)]
                @ compare_footer rf a b))
   \<and> compare_grids rf a b =
       (case compare_lines rf a b of Inl e \<Rightarrow> Inl e | Inr lines \<Rightarrow> Inr (join nl lines))"
proof -
  have pd: "\<forall>pa pb. get b (index pa) = Inr pb \<longrightarrow>
              position_diff b pa =
                (if double_001 < \<bar>float_sub (bias pa) (bias pb)\<bar> then [diff_line pa pb] else [])"
    by (simp add: position_diff_def)
  have up: "\<forall>pa pb. bias pb < bias pa \<and> double_001 < \<bar>float_sub (bias pa) (bias pb)\<bar> \<longrightarrow>
         suffix (str '' ['' @ [8593] @ fmt2f \<bar>float_sub (bias pa) (bias pb)\<bar> @ str '']'')
           (diff_line pa pb)"
    using diff_line_up by blast
  have down: "\<forall>pa pb. bias pa < bias pb \<longrightarrow>
         suffix (str '' ['' @ [8595] @ fmt2f \<bar>float_sub (bias pa) (bias pb)\<bar> @ str '']'')
           (diff_line pa pb)"
    using diff_line_down by blast
  have cg: "compare_grids rf a b =
              (case compare_lines rf a b of Inl e \<Rightarrow> Inl e | Inr lines \<Rightarrow> Inr (join nl lines))"
    by (simp add: compare_grids_def)
  show ?thesis
    using compare_lines_Inr [of a b rf] pd up down compare_lines_self [of a rf]
      compare_lines_one_change [of a k b x rf] cg
    by blast
qed

theorem compare_grids_diff_lines_witness:
  "map index (positions modified_grid) = map index (positions default_grid)
   \<and> distinct (map index (positions default_grid))
   \<and> 7 < length (positions default_grid)
   \<and> positions modified_grid =
       (positions default_grid)[7 := (positions default_grid ! 7)\<lparr>bias := 1 / 2\<rparr>]
   \<and> double_001 < \<bar>float_sub (bias (positions default_grid ! 7)) (1 / 2)\<bar>
   \<and> compare_lines fmt2f default_grid default_grid =
       Inr (compare_header default_grid default_grid
            @ compare_footer fmt2f default_grid default_grid)
   \<and> compare_lines fmt2f default_grid modified_grid =
       Inr (compare_header default_grid modified_grid
            @ [diff_line (positions default_grid ! 7)
                 ((positions default_grid ! 7)\<lparr>bias := 1 / 2\<rparr>)]
            @ compare_footer fmt2f default_grid modified_grid)
   \<and> suffix (str '' ['' @ [8593] @ str ''0.45]'')
        (diff_line (positions default_grid ! 7) ((positions default_grid ! 7)\<lparr>bias := 1 / 2\<rparr>))"
proof -
  let ?p = "positions default_grid ! 7"
  have m: "positions modified_grid = (positions default_grid)[7 := ?p\<lparr>bias := 1 / 2\<rparr>]"
    by (simp add: modified_grid_def)
  have d: "distinct (map index (positions default_grid))"
    by (simp add: default_indices)
  have l: "7 < length (positions default_grid)"
    using arg_cong [OF default_indices, of length] by simp
  have b7: "bias ?p = 95 / 100"
    by (simp add: default_grid_def default_positions_def)
  have fs: "float_sub (95 / 100) (1 / 2) = 8106479329266892 / 2 ^ 54"
    by (simp add: float_sub_def float_eval)
  have "double_001 < \<bar>float_sub (95 / 100) (1 / 2)\<bar>"
    by (simp add: double_001_value float_sub_def float_eval)
  then have x: "double_001 < \<bar>float_sub (bias ?p) (1 / 2)\<bar>"
    by (simp only: b7)
  have lt: "bias (?p\<lparr>bias := 1 / 2\<rparr>) < bias ?p"
    using b7 by simp
  have bq: "bias (?p\<lparr>bias := 1 / 2\<rparr>) = 1 / 2"
    by simp
  have "fmt2f \<bar>8106479329266892 / 2 ^ 54\<bar> = str ''0.45''"
    by (simp add: fmt2f_def round_half_even_def floor_rat_numeral str_def digits.simps)
  then have "fmt2f \<bar>float_sub (95 / 100) (1 / 2)\<bar> = str ''0.45''"
    by (simp only: fs)
  then have f: "fmt2f \<bar>float_sub (bias ?p) (1 / 2)\<bar> = str ''0.45''"
    by (simp only: b7)
  have mi: "map index (positions modified_grid) = map index (positions default_grid)"
    by (simp add: modified_grid_def default_grid_def default_positions_def)
  have "index ` set (positions modified_grid) = index ` set (positions default_grid)"
    using arg_cong [OF mi, of set] by simp
  then have pres: "\<forall>pa \<in> set (positions default_grid).
                     index pa \<in> index ` set (positions modified_grid)"
    by simp
  note t = compare_grids_diff_lines [of default_grid modified_grid fmt2f 7 "1 / 2"]
  from t pres have gen: "compare_lines fmt2f default_grid modified_grid =
       Inr (compare_header default_grid modified_grid
            @ concat (map (position_diff modified_grid) (positions default_grid))
            @ compare_footer fmt2f default_grid modified_grid)"
    by blast
  from t d have self: "compare_lines fmt2f default_grid default_grid =
       Inr (compare_header default_grid default_grid
            @ compare_footer fmt2f default_grid default_grid)"
    by blast
  from t d l m x have one: "compare_lines fmt2f default_grid modified_grid =
       Inr (compare_header default_grid modified_grid
            @ [diff_line ?p (?p\<lparr>bias := 1 / 2\<rparr>)]
            @ compare_footer fmt2f default_grid modified_grid)"
    by blast
  have x': "double_001 < \<bar>float_sub (bias ?p) (bias (?p\<lparr>bias := 1 / 2\<rparr>))\<bar>"
    using x by (simp only: bq)
  from t lt x'
  have "suffix (str '' ['' @ [8593] @ fmt2f \<bar>float_sub (bias ?p) (bias (?p\<lparr>bias := 1 / 2\<rparr>))\<bar>
                  @ str '']'')
        (diff_line ?p (?p\<lparr>bias := 1 / 2\<rparr>))"
    by blast
  then have "suffix (str '' ['' @ [8593] @ fmt2f \<bar>float_sub (bias ?p) (1 / 2)\<bar> @ str '']'')
        (diff_line ?p (?p\<lparr>bias := 1 / 2\<rparr>))"
    by (simp only: bq)
  then have suf: "suffix (str '' ['' @ [8593] @ str ''0.45]'') (diff_line ?p (?p\<lparr>bias := 1 / 2\<rparr>))"
    by (simp add: f str_def)
  from mi d l m x self one suf show ?thesis
    by blast
qed

text \<open>
  The claim as stated fails on a grid with two positions of the same index: \<^verbatim>\<open>b.get\<close>
  returns the first of them for both, so the grid compared with itself has a diff line
  for the second.
\<close>

theorem compare_twin_grid_counterexample:
  "compare_lines fmt2f twin_grid twin_grid =
     Inr (compare_header twin_grid twin_grid
          @ [diff_line (plain_position 1 (5 / 10)) (plain_position 1 (9 / 10))]
          @ compare_footer fmt2f twin_grid twin_grid)
   \<and> compare_lines fmt2f twin_grid twin_grid \<noteq>
       Inr (compare_header twin_grid twin_grid @ compare_footer fmt2f twin_grid twin_grid)"
proof -
  have "double_001 < \<bar>float_sub (1 / 2) (9 / 10)\<bar>"
    by (simp add: double_001_value float_sub_def float_eval)
  then show ?thesis
    by (simp add: compare_lines_def twin_grid_def empty_grid_def plain_position_def get_def
        float_sub_self double_001_not_neg)
qed

section \<open>Sorting and the highest biases\<close>

lemma mset_py_sorted: "mset (py_sorted key r xs) = mset xs"
  by (simp add: py_sorted_def)

lemma set_py_sorted: "set (py_sorted key r xs) = set xs"
  by (simp add: py_sorted_def)

lemma length_py_sorted: "length (py_sorted key r xs) = length xs"
  by (simp add: py_sorted_def)

lemma py_sorted_ascending: "sorted_wrt (\<lambda>a b. key a \<le> key b) (py_sorted key False xs)"
proof -
  have "sorted (map key (sort_key key xs))"
    by simp
  then show ?thesis
    by (simp add: py_sorted_def sorted_wrt_map)
qed

lemma py_sorted_descending: "sorted_wrt (\<lambda>a b. key b \<le> key a) (py_sorted key True xs)"
proof -
  have "sorted (map key (sort_key key (rev xs)))"
    by simp
  then have "sorted_wrt (\<lambda>a b. key a \<le> key b) (sort_key key (rev xs))"
    by (simp add: sorted_wrt_map)
  then show ?thesis
    by (simp add: py_sorted_def sorted_wrt_rev)
qed

lemma py_sorted_stable:
  "filter (\<lambda>x. key x = k) (py_sorted key r xs) = filter (\<lambda>x. key x = k) xs"
  by (simp add: py_sorted_def sort_key_stable rev_filter [symmetric])

lemma py_take_nonneg: "0 \<le> n \<Longrightarrow> py_take n xs = take (nat n) xs"
  by (simp add: py_take_def)

lemma set_py_take: "set (py_take n xs) \<subseteq> set xs"
  by (auto simp: py_take_def dest: in_set_takeD)

lemma top_n_subset: "set (top_n g n) \<subseteq> set (non_center g)"
  using set_py_take [of n "py_sorted bias True (non_center g)"]
  by (simp add: top_n_def set_py_sorted)

lemma top_n_not_center: "p \<in> set (top_n g n) \<Longrightarrow> index p \<noteq> 0 \<and> p \<in> set (positions g)"
  using top_n_subset [of g n] by (auto simp: non_center_def)

lemma top_n_length: "0 \<le> n \<Longrightarrow> length (top_n g n) = min (nat n) (length (non_center g))"
  by (simp add: top_n_def py_take_nonneg length_py_sorted)

lemma top_n_descending: "0 \<le> n \<Longrightarrow> sorted_wrt (\<lambda>p q. bias q \<le> bias p) (top_n g n)"
proof -
  assume n: "0 \<le> n"
  let ?s = "py_sorted bias True (non_center g)"
  have "sorted_wrt (\<lambda>p q. bias q \<le> bias p) (take (nat n) ?s @ drop (nat n) ?s)"
    using py_sorted_descending [of bias "non_center g"] by simp
  then have "sorted_wrt (\<lambda>p q. bias q \<le> bias p) (take (nat n) ?s)"
    unfolding sorted_wrt_append by blast
  with n show ?thesis by (simp add: top_n_def py_take_nonneg)
qed

lemma top_n_highest:
  assumes "0 \<le> n"
  shows "\<exists>rest. mset (top_n g n) + mset rest = mset (non_center g)
           \<and> (\<forall>p \<in> set (top_n g n). \<forall>q \<in> set rest. bias q \<le> bias p)"
proof -
  let ?s = "py_sorted bias True (non_center g)"
  let ?rest = "drop (nat n) ?s"
  have t: "top_n g n = take (nat n) ?s"
    using assms by (simp add: top_n_def py_take_nonneg)
  have "mset (take (nat n) ?s) + mset ?rest = mset ?s"
    by (metis append_take_drop_id mset_append)
  then have m: "mset (top_n g n) + mset ?rest = mset (non_center g)"
    by (simp only: t mset_py_sorted)
  have "sorted_wrt (\<lambda>p q. bias q \<le> bias p) (take (nat n) ?s @ ?rest)"
    using py_sorted_descending [of bias "non_center g"] by simp
  then have "\<forall>p \<in> set (take (nat n) ?s). \<forall>q \<in> set ?rest. bias q \<le> bias p"
    unfolding sorted_wrt_append by blast
  with m t show ?thesis by metis
qed

lemma top_n_ties:
  assumes "0 \<le> n"
  shows "prefix (filter (\<lambda>p. bias p = b) (top_n g n)) (filter (\<lambda>p. bias p = b) (non_center g))"
proof -
  let ?s = "py_sorted bias True (non_center g)"
  have "prefix (take (nat n) ?s) ?s"
    by (rule take_is_prefix)
  then have "prefix (filter (\<lambda>p. bias p = b) (take (nat n) ?s)) (filter (\<lambda>p. bias p = b) ?s)"
    by (rule filter_mono_prefix)
  with assms show ?thesis
    by (simp add: top_n_def py_take_nonneg py_sorted_stable)
qed

lemma top_n_all:
  assumes "int (length (non_center g)) \<le> n"
  shows "mset (top_n g n) = mset (non_center g)"
proof -
  from assms have "0 \<le> n" "length (py_sorted bias True (non_center g)) \<le> nat n"
    by (simp_all add: length_py_sorted)
  then show ?thesis
    by (simp add: top_n_def py_take_nonneg mset_py_sorted)
qed

text \<open>
  C2, as amended. No position that \<^verbatim>\<open>top_n(n)\<close> returns has index 0, and each is a position
  of the grid. For \<open>n \<ge> 0\<close> it returns \<open>min n m\<close> positions, \<open>m\<close> the number of positions whose
  index is not 0; they are in descending order of bias; every position of index other
  than 0 that is left out has a bias at most that of every position returned; and for
  each bias value, the returned positions of that bias are the first ones of that bias in
  the order of the grid, in that order (a prefix of them), so that a tie is decided for the
  position defined earlier. When \<open>n\<close> is at least \<open>m\<close>, all of them are returned.
\<close>

theorem top_n_highest_bias:
  "(\<forall>p \<in> set (top_n g n). index p \<noteq> 0 \<and> p \<in> set (positions g))
   \<and> (0 \<le> n \<longrightarrow>
        length (top_n g n) = min (nat n) (length (non_center g))
        \<and> sorted_wrt (\<lambda>p q. bias q \<le> bias p) (top_n g n)
        \<and> (\<exists>rest. mset (top_n g n) + mset rest = mset (non_center g)
              \<and> (\<forall>p \<in> set (top_n g n). \<forall>q \<in> set rest. bias q \<le> bias p))
        \<and> (\<forall>b. prefix (filter (\<lambda>p. bias p = b) (top_n g n))
                   (filter (\<lambda>p. bias p = b) (non_center g))))
   \<and> (int (length (non_center g)) \<le> n \<longrightarrow> mset (top_n g n) = mset (non_center g))"
  using top_n_not_center [of _ g n] top_n_length [of n g] top_n_descending [of n g]
    top_n_highest [of n g] top_n_ties [of n _ g] top_n_all [of g n]
  by blast

theorem top_n_highest_bias_witness:
  "(0::int) \<le> 3
   \<and> length (top_n default_grid 3) = min (nat 3) (length (non_center default_grid))
   \<and> map index (top_n default_grid 3) = [7, 1, 6]
   \<and> sorted_wrt (\<lambda>p q. bias q \<le> bias p) (top_n default_grid 3)
   \<and> prefix (filter (\<lambda>p. bias p = 9 / 10) (top_n default_grid 3))
        (filter (\<lambda>p. bias p = 9 / 10) (non_center default_grid))
   \<and> int (length (non_center default_grid)) \<le> 10
   \<and> mset (top_n default_grid 10) = mset (non_center default_grid)
   \<and> index ` set (top_n default_grid 10) = {1..8}"
proof -
  have l: "length (non_center default_grid) = 8"
    by (simp add: non_center_def default_grid_def default_positions_def)
  have i: "map index (top_n default_grid 3) = [7, 1, 6]"
    using arg_cong [OF top_n_default_3, of "map fst"] by (simp add: comp_def)
  have "{1..8::int} = {1, 2, 3, 4, 5, 6, 7, 8}"
    by auto
  then have nc: "index ` set (non_center default_grid) = {1..8}"
    by (simp add: non_center_def default_grid_def default_positions_def)
  note t3 = top_n_highest_bias [of default_grid 3]
  note t10 = top_n_highest_bias [of default_grid 10]
  from t10 l have m: "mset (top_n default_grid 10) = mset (non_center default_grid)"
    by simp
  from arg_cong [OF m, of set_mset] nc have s: "index ` set (top_n default_grid 10) = {1..8}"
    by simp
  have z: "(0::int) \<le> 3" by simp
  from t3 z have a: "length (top_n default_grid 3) = min (nat 3) (length (non_center default_grid))"
    by blast
  from t3 z have b: "sorted_wrt (\<lambda>p q. bias q \<le> bias p) (top_n default_grid 3)"
    by blast
  from t3 z have c: "prefix (filter (\<lambda>p. bias p = 9 / 10) (top_n default_grid 3))
        (filter (\<lambda>p. bias p = 9 / 10) (non_center default_grid))"
    by blast
  have l10: "int (length (non_center default_grid)) \<le> 10"
    by (simp add: l)
  from z a i b c l10 m s show ?thesis
    by blast
qed

text \<open>
  The claim as stated fails for a negative \<open>n\<close>: the slice \<^verbatim>\<open>[:n]\<close> then drops the last
  \<open>-n\<close> positions of the sorted list, so \<^verbatim>\<open>top_n(-1)\<close> on the default grid returns seven
  positions.
\<close>

theorem top_n_negative_counterexample:
  "map index (top_n default_grid (- 1)) = [7, 1, 6, 2, 5, 3, 4]
   \<and> length (non_center default_grid) = 8
   \<and> int (length (top_n default_grid (- 1))) \<noteq> min (- 1) (int (length (non_center default_grid)))"
  by (simp add: top_n_def non_center_def py_sorted_def py_take_def default_grid_def
      default_positions_def)

section \<open>The weighted prompt\<close>


lemma foldl_append_map: "foldl (\<lambda>lines p. lines @ [f p]) acc xs = acc @ map f xs"
  by (induction xs arbitrary: acc) simp_all

lemma sublist_join: "l \<in> set ls \<Longrightarrow> sublist l (join s ls)"
proof (induction s ls rule: join.induct)
  case (1 s)
  then show ?case by simp
next
  case (2 s x)
  then show ?case by simp
next
  case (3 s x y ys)
  show ?case
  proof (cases "l = x")
    case True
    then show ?thesis by simp
  next
    case False
    with 3 have "sublist l (join s (y # ys))" by simp
    then obtain ps ss where "join s (y # ys) = ps @ l @ ss"
      by (auto simp: sublist_def)
    then have "join s (x # y # ys) = (x @ s @ ps) @ l @ ss"
      by simp
    then show ?thesis unfolding sublist_def by blast
  qed
qed

lemma sublist_of_line:
  assumes "sublist x l" and "l \<in> set ls"
  shows "sublist x (join s ls)"
  using assms(1) sublist_join [OF assms(2), of s] by (rule sublist_order.order_trans)




lemma sublist_mid: "sublist x (a @ x @ b)"
  by (rule sublist_appendI)






section \<open>The display\<close>

lemma foldl_index_update_None:
  "foldl (\<lambda>m p. m(index p \<mapsto> p)) m ps i = None \<longleftrightarrow> m i = None \<and> i \<notin> index ` set ps"
  by (induction ps arbitrary: m) auto

lemma foldl_index_update_Some:
  "foldl (\<lambda>m p. m(index p \<mapsto> p)) m ps i = Some p \<longleftrightarrow>
     (m i = Some p \<and> i \<notin> index ` set ps)
     \<or> (\<exists>pre post. ps = pre @ p # post \<and> index p = i \<and> i \<notin> index ` set post)"
proof (induction ps arbitrary: m)
  case Nil
  then show ?case by simp
next
  case (Cons q qs)
  let ?later = "\<exists>pre post. qs = pre @ p # post \<and> index p = i \<and> i \<notin> index ` set post"
  have split: "(\<exists>pre post. q # qs = pre @ p # post \<and> index p = i \<and> i \<notin> index ` set post)
     \<longleftrightarrow> (q = p \<and> index p = i \<and> i \<notin> index ` set qs) \<or> ?later"
  proof
    assume "\<exists>pre post. q # qs = pre @ p # post \<and> index p = i \<and> i \<notin> index ` set post"
    then obtain pre post where h: "q # qs = pre @ p # post" "index p = i" "i \<notin> index ` set post"
      by blast
    show "(q = p \<and> index p = i \<and> i \<notin> index ` set qs) \<or> ?later"
    proof (cases pre)
      case Nil
      with h show ?thesis by simp
    next
      case (Cons r rs)
      with h have "qs = rs @ p # post \<and> index p = i \<and> i \<notin> index ` set post" by simp
      then show ?thesis by blast
    qed
  next
    assume "(q = p \<and> index p = i \<and> i \<notin> index ` set qs) \<or> ?later"
    then show "\<exists>pre post. q # qs = pre @ p # post \<and> index p = i \<and> i \<notin> index ` set post"
    proof
      assume "q = p \<and> index p = i \<and> i \<notin> index ` set qs"
      then have "q # qs = [] @ p # qs \<and> index p = i \<and> i \<notin> index ` set qs" by simp
      then show ?thesis by blast
    next
      assume ?later
      then obtain pre post where "qs = pre @ p # post" "index p = i" "i \<notin> index ` set post"
        by blast
      then have "q # qs = (q # pre) @ p # post \<and> index p = i \<and> i \<notin> index ` set post" by simp
      then show ?thesis by blast
    qed
  qed
  have later_in: "?later \<Longrightarrow> i \<in> index ` set qs"
    by auto
  show ?case
    unfolding foldl_Cons Cons.IH split using later_in by auto
qed

lemma index_dict_None: "index_dict ps i = None \<longleftrightarrow> i \<notin> index ` set ps"
  by (simp add: index_dict_def foldl_index_update_None)

lemma index_dict_Some:
  "index_dict ps i = Some p \<longleftrightarrow>
     (\<exists>pre post. ps = pre @ p # post \<and> index p = i \<and> i \<notin> index ` set post)"
  by (simp add: index_dict_def foldl_index_update_Some)

lemma cell_Inl: "cell g i = Inl e \<longleftrightarrow> e = KeyError \<and> g i = None"
  by (auto simp: cell_def split: option.splits)

lemma cell_Inr: "g i = Some p \<Longrightarrow> cell g i = Inr (cell_text p)"
  by (simp add: cell_def)

lemma display_row_Inl:
  "display_row g a b c = Inl e \<longleftrightarrow> e = KeyError \<and> (g a = None \<or> g b = None \<or> g c = None)"
  by (auto simp: display_row_def cell_def split: option.splits)

lemma display_row_Inr:
  "g a = Some pa \<Longrightarrow> g b = Some pb \<Longrightarrow> g c = Some pc \<Longrightarrow>
     display_row g a b c = Inr (row_text (cell_text pa) (cell_text pb) (cell_text pc))"
  by (simp add: display_row_def cell_def)

lemma nine_indices: "{0..8::int} = {0, 1, 2, 3, 4, 5, 6, 7, 8}"
  by auto

lemma display_row_cases:
  "(display_row g a b c = Inl KeyError \<and> (g a = None \<or> g b = None \<or> g c = None))
   \<or> (\<exists>r. display_row g a b c = Inr r \<and> g a \<noteq> None \<and> g b \<noteq> None \<and> g c \<noteq> None)"
  by (auto simp: display_row_def cell_def split: option.splits)

lemma display_rows_Inl:
  "display_rows grid = Inl e \<longleftrightarrow> e = KeyError \<and> \<not> {0..8} \<subseteq> index ` set (positions grid)"
proof -
  let ?g = "index_dict (positions grid)"
  have "display_rows grid = Inl e \<longleftrightarrow>
          e = KeyError \<and> (\<exists>i \<in> {0, 1, 2, 3, 4, 5, 6, 7, 8}. ?g i = None)"
    using display_row_cases [of ?g 1 2 3] display_row_cases [of ?g 6 0 5]
      display_row_cases [of ?g 7 8 4]
    by (auto simp: display_rows_def Let_def)
  also have "\<dots> \<longleftrightarrow> e = KeyError \<and> \<not> {0..8} \<subseteq> index ` set (positions grid)"
    unfolding nine_indices index_dict_None by blast
  finally show ?thesis .
qed

lemma display_rows_Inr:
  assumes "{0..8} \<subseteq> index ` set (positions grid)"
  shows "display_rows grid = Inr (layout_rows (\<lambda>i. the (index_dict (positions grid) i)))"
proof -
  let ?g = "index_dict (positions grid)"
  have some: "i \<in> {0..8} \<Longrightarrow> \<exists>p. ?g i = Some p" for i
    using assms index_dict_None [of "positions grid" i] by (cases "?g i") auto
  have r1: "display_row ?g 1 2 3 =
              Inr (row_text (cell_text (the (?g 1))) (cell_text (the (?g 2))) (cell_text (the (?g 3))))"
    using some [of 1] some [of 2] some [of 3] by (auto simp: display_row_Inr)
  have r2: "display_row ?g 6 0 5 =
              Inr (row_text (cell_text (the (?g 6))) (cell_text (the (?g 0))) (cell_text (the (?g 5))))"
    using some [of 6] some [of 0] some [of 5] by (auto simp: display_row_Inr)
  have r3: "display_row ?g 7 8 4 =
              Inr (row_text (cell_text (the (?g 7))) (cell_text (the (?g 8))) (cell_text (the (?g 4))))"
    using some [of 7] some [of 8] some [of 4] by (auto simp: display_row_Inr)
  show ?thesis
    by (simp add: display_rows_def Let_def r1 r2 r3 layout_rows_def)
qed

lemma display_Inl:
  "display grid = Inl e \<longleftrightarrow> e = KeyError \<and> \<not> {0..8} \<subseteq> index ` set (positions grid)"
  using display_rows_Inl [of grid e] by (auto simp: display_def split: sum.splits)

text \<open>Splitting a joined text at the line feeds.\<close>

lemma split_acc_no_nl: "10 \<notin> set r \<Longrightarrow> split_acc acc (r @ rest) = split_acc (acc @ r) rest"
  by (induction r arbitrary: acc) auto

lemma split_acc_join:
  "\<forall>r \<in> set (x # rows). 10 \<notin> set r \<Longrightarrow> split_acc acc (join nl (x # rows)) = (acc @ x) # rows"
proof (induction rows arbitrary: x acc)
  case Nil
  then have "split_acc acc (x @ []) = split_acc (acc @ x) []"
    by (intro split_acc_no_nl) simp
  then show ?case by simp
next
  case (Cons y ys)
  then have x: "10 \<notin> set x" and rest: "\<forall>r \<in> set (y # ys). 10 \<notin> set r"
    by simp_all
  have "split_acc acc (join nl (x # y # ys)) = split_acc acc (x @ (10 # join nl (y # ys)))"
    by (simp add: nl_def)
  also have "\<dots> = split_acc (acc @ x) (10 # join nl (y # ys))"
    using x by (rule split_acc_no_nl)
  also have "\<dots> = (acc @ x) # split_acc [] (join nl (y # ys))"
    by simp
  also have "\<dots> = (acc @ x) # y # ys"
    using Cons.IH [OF rest, of "[]"] by simp
  finally show ?case .
qed

lemma split_nl_join:
  "rows \<noteq> [] \<Longrightarrow> \<forall>r \<in> set rows. 10 \<notin> set r \<Longrightarrow> split_nl (join nl rows) = rows"
  using split_acc_join [of "hd rows" "tl rows" "[]"] by (cases rows) (simp_all add: split_nl_def)

text \<open>The digits of the formats.\<close>

lemma digits_range: "set (digits n) \<subseteq> {48..57}"
proof (induction n rule: digits.induct)
  case (1 n)
  show ?case
  proof (cases "n < 10")
    case True
    then show ?thesis by (subst digits.simps) auto
  next
    case False
    have "n mod 10 < 10" by simp
    then have "48 + n mod 10 \<in> {48..57}" by auto
    with 1 False show ?thesis by (subst digits.simps) auto
  qed
qed

lemma digits_not_Nil: "digits n \<noteq> []"
  by (subst digits.simps) simp

lemma decimal_value_digits: "decimal_value (digits n) = n"
proof (induction n rule: digits.induct)
  case (1 n)
  show ?case
  proof (cases "n < 10")
    case True
    then show ?thesis by (subst digits.simps) (simp add: decimal_value_def)
  next
    case False
    with 1 have "decimal_value (digits (n div 10)) = n div 10" by simp
    with False show ?thesis
      by (subst digits.simps) (simp add: decimal_value_def)
  qed
qed

lemma round_half_even_near:
  assumes "0 \<le> y"
  shows "\<bar>of_nat (round_half_even y) - y\<bar> \<le> 1 / 2"
proof -
  define f where "f = \<lfloor>y\<rfloor>"
  define r where "r = y - of_int f"
  have f0: "0 \<le> f" using assms by (simp add: f_def)
  then have nf: "(of_nat (nat f) :: rat) = of_int f" by simp
  have "of_int f \<le> y" and "y < of_int f + 1"
    unfolding f_def by linarith+
  then have r: "0 \<le> r" "r < 1" and y: "y = of_int f + r"
    by (simp_all add: r_def)
  have e: "round_half_even y =
             (if r < 1 / 2 then nat f else if 1 / 2 < r then nat f + 1
              else if even (nat f) then nat f else nat f + 1)"
    by (simp add: round_half_even_def Let_def f_def r_def)
  show ?thesis
  proof (cases "r < 1 / 2")
    case True
    with e have "of_nat (round_half_even y) - y = - r"
      by (simp add: y nf)
    with r True show ?thesis by simp
  next
    case False
    show ?thesis
    proof (cases "1 / 2 < r \<or> odd (nat f)")
      case True
      with e False have "round_half_even y = nat f + 1" by auto
      then have "of_nat (round_half_even y) - y = 1 - r"
        by (simp add: y nf)
      with r False show ?thesis by simp
    next
      case False
      with \<open>\<not> r < 1 / 2\<close> have half: "r = 1 / 2" by simp
      from False e half have "round_half_even y = nat f" by simp
      then have "of_nat (round_half_even y) - y = - r"
        by (simp add: y nf)
      with half show ?thesis by simp
    qed
  qed
qed

lemma fmt2f_shape:
  "\<exists>q. fmt2f x = (if x < 0 then [45] else []) @ digits (q div 100) @ [46]
             @ [48 + (q mod 100) div 10, 48 + q mod 10]
       \<and> \<bar>of_nat q / 100 - \<bar>x\<bar>\<bar> \<le> 1 / 200"
proof -
  let ?q = "round_half_even (\<bar>x\<bar> * 100)"
  have "\<bar>of_nat ?q - \<bar>x\<bar> * 100\<bar> \<le> 1 / 2"
    by (rule round_half_even_near) simp
  then have "\<bar>of_nat ?q / 100 - \<bar>x\<bar>\<bar> \<le> 1 / 200"
    by (simp add: abs_le_iff field_simps)
  then show ?thesis
    by (intro exI [of _ ?q]) (simp add: fmt2f_def Let_def)
qed

lemma fmt2f_no_nl: "10 \<notin> set (fmt2f x)"
proof -
  have "10 \<notin> set (digits n)" for n
    using digits_range [of n] by auto
  then show ?thesis
    by (simp add: fmt2f_def Let_def)
qed

lemma length_center: "length s \<le> w \<Longrightarrow> length (center w s) = w"
  by (simp add: center_def Let_def)

lemma center_pads:
  "length s \<le> w \<Longrightarrow>
     center w s = replicate ((w - length s) div 2) 32 @ s
                  @ replicate (w - length s - (w - length s) div 2) 32"
  by (simp add: center_def Let_def)

lemma center_no_nl: "10 \<notin> set s \<Longrightarrow> 10 \<notin> set (center w s)"
  by (simp add: center_def Let_def)

lemma cell_text_no_nl: "10 \<notin> set (take 12 (label p)) \<Longrightarrow> 10 \<notin> set (cell_text p)"
  by (simp add: cell_text_def center_no_nl fmt2f_no_nl str_def)

lemma replicate_numeral: "replicate (numeral k) x = x # replicate (pred_numeral k) x"
  by (simp add: numeral_eq_Suc)

lemma sep_text: "sep = str ''+----------------+----------------+----------------+''"
  by (simp add: sep_def str_def replicate_numeral)

lemma layout_rows_no_nl:
  assumes "\<forall>i \<in> {0..8}. 10 \<notin> set (take 12 (label (p i)))"
  shows "\<forall>r \<in> set (layout_rows p). 10 \<notin> set r"
proof -
  have "10 \<notin> set (cell_text (p i))" if "i \<in> {0..8}" for i
    using assms that by (intro cell_text_no_nl) blast
  then have "10 \<notin> set (cell_text (p 0))" "10 \<notin> set (cell_text (p 1))" "10 \<notin> set (cell_text (p 2))"
    "10 \<notin> set (cell_text (p 3))" "10 \<notin> set (cell_text (p 4))" "10 \<notin> set (cell_text (p 5))"
    "10 \<notin> set (cell_text (p 6))" "10 \<notin> set (cell_text (p 7))" "10 \<notin> set (cell_text (p 8))"
    by simp_all
  then show ?thesis
    by (simp add: layout_rows_def row_text_def sep_text str_def)
qed

lemma center_14:
  "length (center 14 (take 12 l)) = 14
   \<and> (\<exists>a b. center 14 (take 12 l) = replicate a 32 @ take 12 l @ replicate b 32
         \<and> a \<le> b \<and> b \<le> a + 1)"
proof -
  have le: "length (take 12 l) \<le> 14" by simp
  let ?pad = "14 - length (take 12 l)"
  have "center 14 (take 12 l) = replicate (?pad div 2) 32 @ take 12 l
          @ replicate (?pad - ?pad div 2) 32"
    using le by (rule center_pads)
  moreover have "?pad div 2 \<le> ?pad - ?pad div 2" "?pad - ?pad div 2 \<le> ?pad div 2 + 1"
    by linarith+
  ultimately show ?thesis
    using length_center [OF le] by blast
qed

lemma default_labels_no_nl: "\<forall>r \<in> set (positions default_grid). 10 \<notin> set (label r)"
  by (simp add: default_grid_def default_positions_def str_def)

text \<open>
  C8, as amended. For a grid that has a position for each index from 0 to 8,
  \<^verbatim>\<open>display()\<close> returns seven rows joined by line feeds: border, row, border, row, border,
  row, border. The first row shows the indices 1, 2, 3, the second 6, 0, 5, the third
  7, 8, 4; the position shown for an index is the last one of that index in the grid. A
  cell is the label cut to 12 characters and centred in 14 columns (the odd space on the
  right), then the bias in parentheses with two decimals: the digits of the hundredth
  nearest to the bias. When no shown label has a line feed among its first 12 characters,
  splitting the text at the line feeds gives back exactly these seven lines.
\<close>

theorem display_layout:
  "({0..8} \<subseteq> index ` set (positions g) \<longrightarrow>
      (\<exists>p. (\<forall>i \<in> {0..8}. \<exists>pre post.
                positions g = pre @ p i # post \<and> index (p i) = i \<and> i \<notin> index ` set post)
           \<and> display_rows g = Inr (layout_rows p)
           \<and> display g = Inr (join nl (layout_rows p))
           \<and> ((\<forall>i \<in> {0..8}. 10 \<notin> set (take 12 (label (p i)))) \<longrightarrow>
                 split_nl (join nl (layout_rows p)) = layout_rows p)))
   \<and> length (layout_rows q) = 7
   \<and> layout_rows q =
       [sep, row_text (cell_text (q 1)) (cell_text (q 2)) (cell_text (q 3)),
        sep, row_text (cell_text (q 6)) (cell_text (q 0)) (cell_text (q 5)),
        sep, row_text (cell_text (q 7)) (cell_text (q 8)) (cell_text (q 4)),
        sep]
   \<and> sep = str ''+----------------+----------------+----------------+''
   \<and> row_text ca cb cc = str ''|'' @ ca @ str ''|'' @ cb @ str ''|'' @ cc @ str ''|''
   \<and> cell_text c = center 14 (take 12 (label c)) @ str ''('' @ fmt2f (bias c) @ str '')''
   \<and> length (center 14 (take 12 (label c))) = 14
   \<and> (\<exists>a b. center 14 (take 12 (label c)) = replicate a 32 @ take 12 (label c) @ replicate b 32
         \<and> a \<le> b \<and> b \<le> a + 1)
   \<and> (\<exists>h. fmt2f x = (if x < 0 then [45] else []) @ digits (h div 100) @ [46]
               @ [48 + (h mod 100) div 10, 48 + h mod 10]
         \<and> \<bar>of_nat h / 100 - \<bar>x\<bar>\<bar> \<le> 1 / 200)
   \<and> decimal_value (digits n) = n
   \<and> set (digits n) \<subseteq> {48..57}"
proof -
  have main: "\<exists>p. (\<forall>i \<in> {0..8}. \<exists>pre post.
                positions g = pre @ p i # post \<and> index (p i) = i \<and> i \<notin> index ` set post)
           \<and> display_rows g = Inr (layout_rows p)
           \<and> display g = Inr (join nl (layout_rows p))
           \<and> ((\<forall>i \<in> {0..8}. 10 \<notin> set (take 12 (label (p i)))) \<longrightarrow>
                 split_nl (join nl (layout_rows p)) = layout_rows p)"
    if all: "{0..8} \<subseteq> index ` set (positions g)"
  proof -
    let ?p = "\<lambda>i. the (index_dict (positions g) i)"
    have shown: "\<exists>pre post. positions g = pre @ ?p i # post \<and> index (?p i) = i
                   \<and> i \<notin> index ` set post" if "i \<in> {0..8}" for i
    proof -
      from that all have "index_dict (positions g) i \<noteq> None"
        by (auto simp: index_dict_None)
      then obtain r where r: "index_dict (positions g) i = Some r" by blast
      then show ?thesis
        using index_dict_Some [of "positions g" i r] by simp
    qed
    have rows: "display_rows g = Inr (layout_rows ?p)"
      using all by (rule display_rows_Inr)
    then have joined: "display g = Inr (join nl (layout_rows ?p))"
      by (simp add: display_def)
    have lines: "split_nl (join nl (layout_rows ?p)) = layout_rows ?p"
      if "\<forall>i \<in> {0..8}. 10 \<notin> set (take 12 (label (?p i)))"
      using layout_rows_no_nl [OF that] by (intro split_nl_join) (simp_all add: layout_rows_def)
    from shown rows joined lines show ?thesis
      by (intro exI [of _ ?p]) blast
  qed
  have l7: "length (layout_rows q) = 7"
    by (simp add: layout_rows_def)
  have lr: "layout_rows q =
       [sep, row_text (cell_text (q 1)) (cell_text (q 2)) (cell_text (q 3)),
        sep, row_text (cell_text (q 6)) (cell_text (q 0)) (cell_text (q 5)),
        sep, row_text (cell_text (q 7)) (cell_text (q 8)) (cell_text (q 4)),
        sep]"
    by (simp add: layout_rows_def)
  have rt: "row_text ca cb cc = str ''|'' @ ca @ str ''|'' @ cb @ str ''|'' @ cc @ str ''|''"
    by (simp add: row_text_def)
  have ct: "cell_text c = center 14 (take 12 (label c)) @ str ''('' @ fmt2f (bias c) @ str '')''"
    by (simp add: cell_text_def)
  show ?thesis
    using main l7 lr sep_text rt ct center_14 [of "label c"] fmt2f_shape [of x]
      decimal_value_digits [of n] digits_range [of n]
    by blast
qed

theorem display_layout_witness:
  "{0..8} \<subseteq> index ` set (positions default_grid)
   \<and> (\<exists>rows. display default_grid = Inr (join nl rows) \<and> length rows = 7
          \<and> split_nl (join nl rows) = rows)"
proof -
  have all: "{0..8} \<subseteq> index ` set (positions default_grid)"
    using arg_cong [OF default_indices, of set] by (simp add: nine_indices)
  from display_layout [of default_grid] all obtain p where
    p: "\<forall>i \<in> {0..8}. \<exists>pre post. positions default_grid = pre @ p i # post \<and> index (p i) = i
          \<and> i \<notin> index ` set post"
    and d: "display default_grid = Inr (join nl (layout_rows p))"
    and s: "(\<forall>i \<in> {0..8}. 10 \<notin> set (take 12 (label (p i)))) \<longrightarrow>
              split_nl (join nl (layout_rows p)) = layout_rows p"
    by blast
  have "10 \<notin> set (take 12 (label (p i)))" if "i \<in> {0..8}" for i
  proof -
    from p that have "p i \<in> set (positions default_grid)" by fastforce
    with default_labels_no_nl have "10 \<notin> set (label (p i))" by blast
    then show ?thesis by (auto dest: in_set_takeD)
  qed
  with s have sp: "split_nl (join nl (layout_rows p)) = layout_rows p"
    by blast
  have "length (layout_rows p) = 7"
    using display_layout [where q = p] by blast
  with d sp all show ?thesis
    by blast
qed

text \<open>
  The claim as stated fails on a grid that lacks one of the nine indices, such as
  \<^verbatim>\<open>MandalaGrid()\<close>: the lookup of the cell raises \<^verbatim>\<open>KeyError\<close> and there is no output.
\<close>

theorem display_empty_grid_counterexample: "display empty_grid = Inl KeyError"
  by (simp add: display_def display_rows_def display_row_def cell_def index_dict_def
      empty_grid_def)

section \<open>Mirror analysis\<close>

lemma mirror_lines_Inl:
  "mirror_lines rf lower g = Inl e \<longleftrightarrow> e = KeyError \<and> 0 \<notin> index ` set (positions g)"
  using get_loop_Inl_iff [of "positions g" 0 e]
  by (auto simp: mirror_lines_def Let_def get_def split: sum.splits)

lemma mirror_lines_Inr:
  "get g 0 = Inr c \<Longrightarrow>
     mirror_lines rf lower g =
       Inr (mirror_header @ map (strongest_line rf lower) (top_n g 3)
            @ [[], str ''Your deprioritized patterns:'']
            @ map (deprioritized_line rf) (bottom_two g)
            @ [[], center_line c, [], mirror_closing])"
  by (simp add: mirror_lines_def Let_def foldl_append_map)

lemma mirror_analysis_Inl:
  "mirror_analysis rf lower g = Inl e \<longleftrightarrow> e = KeyError \<and> 0 \<notin> index ` set (positions g)"
  using mirror_lines_Inl [of rf lower g e]
  by (auto simp: mirror_analysis_def split: sum.splits)

lemma bottom_two_eq: "bottom_two g = take 2 (py_sorted bias False (non_center g))"
  by (simp add: bottom_two_def py_take_def)

lemma bottom_two_length: "length (bottom_two g) = min 2 (length (non_center g))"
  by (simp add: bottom_two_eq length_py_sorted)

lemma bottom_two_subset: "set (bottom_two g) \<subseteq> set (non_center g)"
  using set_take_subset [of 2 "py_sorted bias False (non_center g)"]
  by (simp add: bottom_two_eq set_py_sorted)

lemma bottom_two_ascending: "sorted_wrt (\<lambda>p q. bias p \<le> bias q) (bottom_two g)"
proof -
  let ?s = "py_sorted bias False (non_center g)"
  have "sorted_wrt (\<lambda>p q. bias p \<le> bias q) (take 2 ?s @ drop 2 ?s)"
    using py_sorted_ascending [of bias "non_center g"] by simp
  then have "sorted_wrt (\<lambda>p q. bias p \<le> bias q) (take 2 ?s)"
    unfolding sorted_wrt_append by blast
  then show ?thesis by (simp add: bottom_two_eq)
qed

lemma bottom_two_lowest:
  "\<exists>rest. mset (bottom_two g) + mset rest = mset (non_center g)
     \<and> (\<forall>p \<in> set (bottom_two g). \<forall>q \<in> set rest. bias p \<le> bias q)"
proof -
  let ?s = "py_sorted bias False (non_center g)"
  have "mset (take 2 ?s) + mset (drop 2 ?s) = mset ?s"
    by (metis append_take_drop_id mset_append)
  then have m: "mset (bottom_two g) + mset (drop 2 ?s) = mset (non_center g)"
    by (simp only: bottom_two_eq mset_py_sorted)
  have "sorted_wrt (\<lambda>p q. bias p \<le> bias q) (take 2 ?s @ drop 2 ?s)"
    using py_sorted_ascending [of bias "non_center g"] by simp
  then have "\<forall>p \<in> set (take 2 ?s). \<forall>q \<in> set (drop 2 ?s). bias p \<le> bias q"
    unfolding sorted_wrt_append by blast
  with m show ?thesis
    unfolding bottom_two_eq by metis
qed

lemma bottom_two_ties:
  "prefix (filter (\<lambda>p. bias p = b) (bottom_two g)) (filter (\<lambda>p. bias p = b) (non_center g))"
proof -
  let ?s = "py_sorted bias False (non_center g)"
  have "prefix (take 2 ?s) ?s"
    by (rule take_is_prefix)
  then have "prefix (filter (\<lambda>p. bias p = b) (take 2 ?s)) (filter (\<lambda>p. bias p = b) ?s)"
    by (rule filter_mono_prefix)
  then show ?thesis
    by (simp add: bottom_two_eq py_sorted_stable)
qed

lemma get_Inr_facts:
  "get g i = Inr c \<Longrightarrow> c \<in> set (positions g) \<and> index c = i"
  using get_loop_Inr_iff [of "positions g" i c] by (auto simp: get_def)

lemma mirror_default:
  "\<exists>out. mirror_analysis rf lower default_grid = Inr out
     \<and> sublist (str ''Mirror'') out \<and> sublist (str ''Center Observer'') out"
proof -
  let ?c = "hd (positions default_grid)"
  have g: "get default_grid 0 = Inr ?c"
    by (simp add: get_def default_grid_def default_positions_def)
  let ?lines = "mirror_header @ map (strongest_line rf lower) (top_n default_grid 3)
            @ [[], str ''Your deprioritized patterns:'']
            @ map (deprioritized_line rf) (bottom_two default_grid)
            @ [[], center_line ?c, [], mirror_closing]"
  have out: "mirror_analysis rf lower default_grid = Inr (join nl ?lines)"
    by (simp add: mirror_analysis_def mirror_lines_Inr [OF g])
  let ?title = "[9552, 9552, 9552] @ str '' Mirror Analysis '' @ [9552, 9552, 9552]"
  have "sublist (str ''Mirror'') (([9552, 9552, 9552] @ str '' '') @ str ''Mirror''
          @ (str '' Analysis '' @ [9552, 9552, 9552]))"
    by (rule sublist_appendI)
  then have "sublist (str ''Mirror'') ?title"
    by (simp add: str_def)
  moreover have "?title \<in> set ?lines"
    by (simp add: mirror_header_def)
  ultimately have m: "sublist (str ''Mirror'') (join nl ?lines)"
    by (rule sublist_of_line)
  have "label ?c = str ''Center Observer''"
    by (simp add: default_grid_def default_positions_def)
  then have "sublist (str ''Center Observer'') (center_line ?c)"
    by (simp add: center_line_def)
  moreover have "center_line ?c \<in> set ?lines"
    by simp
  ultimately have c: "sublist (str ''Center Observer'') (join nl ?lines)"
    by (rule sublist_of_line)
  from out m c show ?thesis by blast
qed

text \<open>
  C9, as amended. For a grid that has a position of index 0, the lines of
  \<^verbatim>\<open>mirror_analysis(grid)\<close> are the header, which ends with the line announcing the
  strongest patterns, one line for each position of \<^verbatim>\<open>top_n(3)\<close> in that order, an empty line
  and the line announcing the deprioritized patterns, one line for each of the bottom two
  positions, an empty line, the line of the centre (the label and description of the
  position \<^verbatim>\<open>get(0)\<close> returns), an empty line and the fixed closing sentence. The bottom two
  are the first two positions of index other than 0 in ascending order of bias: at most
  two, lowest first, every other such position having a bias at least theirs, and
  positions of equal bias in the order of the grid. The result is a function of the grid
  (and of the two library functions the model takes as parameters); the model has no
  state. On the default grid the text contains \<^verbatim>\<open>Mirror\<close> and \<^verbatim>\<open>Center Observer\<close>.
\<close>

theorem mirror_analysis_contents:
  "(0 \<in> index ` set (positions g) \<longrightarrow>
      (\<exists>c. get g 0 = Inr c \<and> c \<in> set (positions g) \<and> index c = 0
           \<and> mirror_lines rf lower g =
               Inr (mirror_header @ map (strongest_line rf lower) (top_n g 3)
                    @ [[], str ''Your deprioritized patterns:'']
                    @ map (deprioritized_line rf) (bottom_two g)
                    @ [[], center_line c, [], mirror_closing])))
   \<and> mirror_analysis rf lower g =
       (case mirror_lines rf lower g of Inl e \<Rightarrow> Inl e | Inr lines \<Rightarrow> Inr (join nl lines))
   \<and> last mirror_header = str ''Your strongest cognitive patterns:''
   \<and> top_n g 3 = take 3 (py_sorted bias True (non_center g))
   \<and> bottom_two g = take 2 (py_sorted bias False (non_center g))
   \<and> length (bottom_two g) = min 2 (length (non_center g))
   \<and> sorted_wrt (\<lambda>p q. bias p \<le> bias q) (bottom_two g)
   \<and> (\<exists>rest. mset (bottom_two g) + mset rest = mset (non_center g)
         \<and> (\<forall>p \<in> set (bottom_two g). \<forall>q \<in> set rest. bias p \<le> bias q))
   \<and> (\<forall>b. prefix (filter (\<lambda>p. bias p = b) (bottom_two g))
              (filter (\<lambda>p. bias p = b) (non_center g)))
   \<and> strongest_line rf lower p =
       str ''  '' @ [11014] @ str '' '' @ label p @ str '' (bias='' @ rf (bias p)
         @ str ''): You naturally '' @ lower (GridPosition.description p)
   \<and> deprioritized_line rf p =
       str ''  '' @ [11015] @ str '' '' @ label p @ str '' (bias='' @ rf (bias p)
         @ str ''): You tend to under-invest in '' @ function_p p
   \<and> center_line p =
       str ''Your center: '' @ label p @ str '' '' @ [8212] @ str '' ''
         @ GridPosition.description p
   \<and> (\<exists>out. mirror_analysis rf lower default_grid = Inr out
         \<and> sublist (str ''Mirror'') out \<and> sublist (str ''Center Observer'') out)"
proof -
  have main: "\<exists>c. get g 0 = Inr c \<and> c \<in> set (positions g) \<and> index c = 0
           \<and> mirror_lines rf lower g =
               Inr (mirror_header @ map (strongest_line rf lower) (top_n g 3)
                    @ [[], str ''Your deprioritized patterns:'']
                    @ map (deprioritized_line rf) (bottom_two g)
                    @ [[], center_line c, [], mirror_closing])"
    if "0 \<in> index ` set (positions g)"
  proof -
    from that obtain c where c: "get g 0 = Inr c"
      using get_Inr_of_present by blast
    with get_Inr_facts [OF c] mirror_lines_Inr [OF c, of rf lower] show ?thesis
      by blast
  qed
  have ma: "mirror_analysis rf lower g =
       (case mirror_lines rf lower g of Inl e \<Rightarrow> Inl e | Inr lines \<Rightarrow> Inr (join nl lines))"
    by (simp add: mirror_analysis_def)
  have hd: "last mirror_header = str ''Your strongest cognitive patterns:''"
    by (simp add: mirror_header_def)
  have t3: "top_n g 3 = take 3 (py_sorted bias True (non_center g))"
    by (simp add: top_n_def py_take_def)
  have sl: "strongest_line rf lower p =
       str ''  '' @ [11014] @ str '' '' @ label p @ str '' (bias='' @ rf (bias p)
         @ str ''): You naturally '' @ lower (GridPosition.description p)"
    by (simp add: strongest_line_def)
  have dl: "deprioritized_line rf p =
       str ''  '' @ [11015] @ str '' '' @ label p @ str '' (bias='' @ rf (bias p)
         @ str ''): You tend to under-invest in '' @ function_p p"
    by (simp add: deprioritized_line_def)
  have cl: "center_line p =
       str ''Your center: '' @ label p @ str '' '' @ [8212] @ str '' ''
         @ GridPosition.description p"
    by (simp add: center_line_def)
  show ?thesis
    using main ma hd t3 bottom_two_eq [of g] bottom_two_length [of g] bottom_two_ascending [of g]
      bottom_two_lowest [of g] bottom_two_ties [of _ g] sl dl cl mirror_default [of rf lower]
    by blast
qed

theorem mirror_analysis_contents_witness:
  "0 \<in> index ` set (positions default_grid)
   \<and> mirror_lines fmt2f id default_grid =
       Inr (mirror_header @ map (strongest_line fmt2f id) (top_n default_grid 3)
            @ [[], str ''Your deprioritized patterns:'']
            @ map (deprioritized_line fmt2f) (bottom_two default_grid)
            @ [[], center_line (hd (positions default_grid)), [], mirror_closing])
   \<and> map index (top_n default_grid 3) = [7, 1, 6]
   \<and> map index (bottom_two default_grid) = [8, 4]"
proof -
  have z: "0 \<in> index ` set (positions default_grid)"
    using arg_cong [OF default_indices, of set] by simp
  have g: "get default_grid 0 = Inr (hd (positions default_grid))"
    by (simp add: get_def default_grid_def default_positions_def)
  from mirror_analysis_contents [of default_grid fmt2f id] z g
  have l: "mirror_lines fmt2f id default_grid =
       Inr (mirror_header @ map (strongest_line fmt2f id) (top_n default_grid 3)
            @ [[], str ''Your deprioritized patterns:'']
            @ map (deprioritized_line fmt2f) (bottom_two default_grid)
            @ [[], center_line (hd (positions default_grid)), [], mirror_closing])"
    by auto
  have t: "map index (top_n default_grid 3) = [7, 1, 6]"
    using arg_cong [OF top_n_default_3, of "map fst"] by (simp add: comp_def)
  have b: "map index (bottom_two default_grid) = [8, 4]"
    by (simp add: bottom_two_def py_take_def py_sorted_def non_center_def default_grid_def
        default_positions_def)
  from z l t b show ?thesis by blast
qed

text \<open>
  The claim as stated fails on a grid without a position of index 0: \<^verbatim>\<open>grid.get(0)\<close>
  raises \<^verbatim>\<open>KeyError\<close> and there is no output.
\<close>

theorem mirror_empty_grid_counterexample: "mirror_analysis fmt2f id empty_grid = Inl KeyError"
  by (simp add: mirror_analysis_def mirror_lines_def Let_def get_def empty_grid_def)

section \<open>Grids that lack an index\<close>

text \<open>
  C10. \<^verbatim>\<open>display()\<close> raises \<^verbatim>\<open>KeyError\<close> exactly when one of the indices 0 to 8 has no
  position in the grid, and raises nothing else; \<^verbatim>\<open>mirror_analysis\<close> raises \<^verbatim>\<open>KeyError\<close>
  exactly when no position has index 0, and raises nothing else. Loading checks neither
  the number of positions nor their indices: every grid, whatever its positions, is the
  result of loading its own serialization.
\<close>

theorem incomplete_grids:
  "(display g = Inl KeyError \<longleftrightarrow> \<not> {0..8} \<subseteq> index ` set (positions g))
   \<and> (\<forall>e. display g = Inl e \<longrightarrow> e = KeyError)
   \<and> (mirror_analysis rf lower g = Inl KeyError \<longleftrightarrow> 0 \<notin> index ` set (positions g))
   \<and> (\<forall>e. mirror_analysis rf lower g = Inl e \<longrightarrow> e = KeyError)
   \<and> from_data (to_dict g) = Inr g"
  by (simp add: display_Inl mirror_analysis_Inl from_data_to_dict)

theorem incomplete_grids_witness:
  "\<not> {0..8} \<subseteq> index ` set (positions empty_grid)
   \<and> display empty_grid = Inl KeyError
   \<and> 0 \<notin> index ` set (positions empty_grid)
   \<and> mirror_analysis fmt2f id empty_grid = Inl KeyError
   \<and> from_data (to_dict empty_grid) = Inr empty_grid
   \<and> 0 \<notin> index ` set (tl (positions default_grid))
   \<and> display (default_grid\<lparr>positions := tl (positions default_grid)\<rparr>) = Inl KeyError
   \<and> mirror_analysis fmt2f id (default_grid\<lparr>positions := tl (positions default_grid)\<rparr>) = Inl KeyError
   \<and> from_data (to_dict (default_grid\<lparr>positions := tl (positions default_grid)\<rparr>)) =
       Inr (default_grid\<lparr>positions := tl (positions default_grid)\<rparr>)"
proof -
  let ?g = "default_grid\<lparr>positions := tl (positions default_grid)\<rparr>"
  have e: "0 \<notin> index ` set (positions empty_grid)"
    by (simp add: empty_grid_def)
  have z: "(0::int) \<in> {0..8}"
    by simp
  from e z have e9: "\<not> {0..8} \<subseteq> index ` set (positions empty_grid)"
    by blast
  have "map index (positions ?g) = [1, 2, 3, 4, 5, 6, 7, 8]"
    by (simp add: default_grid_def default_positions_def)
  from arg_cong [OF this, of set] have t: "0 \<notin> index ` set (positions ?g)"
    by simp
  from t z have t9: "\<not> {0..8} \<subseteq> index ` set (positions ?g)"
    by blast
  from t have t': "0 \<notin> index ` set (tl (positions default_grid))"
    by simp
  note a = incomplete_grids [of empty_grid fmt2f id]
  note b = incomplete_grids [of ?g fmt2f id]
  from a b e e9 t t9 t' show ?thesis
    by blast
qed

section \<open>Loading\<close>

lemma GridPosition_init_Inl:
  "GridPosition_init p = Inl e \<longleftrightarrow> e = TypeError \<and> \<not> position_ok p"
  by (cases p) (auto simp: position_ok_def GridPosition_init_def list_all_iff list_ex_iff)

lemma GridPosition_init_Inr:
  "GridPosition_init p = Inr kw \<longleftrightarrow> p = JDict kw \<and> position_ok p"
  by (cases p) (auto simp: position_ok_def GridPosition_init_def list_all_iff list_ex_iff)

lemma init_all_Inl:
  "init_all items = Inl e \<longleftrightarrow> e = TypeError \<and> \<not> list_all position_ok items"
proof (induction items)
  case Nil
  then show ?case by simp
next
  case (Cons p ps)
  show ?case
  proof (cases "GridPosition_init p")
    case (Inl e')
    then have "e' = TypeError" "\<not> position_ok p"
      by (simp_all add: GridPosition_init_Inl)
    with Inl show ?thesis by auto
  next
    case (Inr kw)
    with GridPosition_init_Inr [of p kw] have "position_ok p" by blast
    with Inr Cons.IH show ?thesis by (auto split: sum.splits)
  qed
qed

lemma init_all_Inr: "init_all items = Inr objs \<Longrightarrow> items = map JDict objs"
proof (induction items arbitrary: objs)
  case Nil
  then show ?case by simp
next
  case (Cons p ps)
  then show ?case
    by (auto simp: GridPosition_init_Inr split: sum.splits)
qed

lemma typed_lookup: "list_all typed_field kw \<Longrightarrow> map_of kw k = Some v \<Longrightarrow> typed_field (k, v)"
  by (auto dest: map_of_SomeD simp: list_all_iff)

lemma typed_int:
  assumes "list_all typed_field kw" and "map_of kw (str ''index'') \<noteq> None"
  shows "\<exists>i. as_int (dict_get kw (str ''index'') dflt) = Some i"
proof -
  from assms(2) obtain v where v: "map_of kw (str ''index'') = Some v" by blast
  from typed_lookup [OF assms(1) v] have "as_int v \<noteq> None"
    by (simp add: typed_field_def)
  with v show ?thesis by (simp add: dict_get_def)
qed

lemma typed_float:
  assumes "list_all typed_field kw" and "map_of kw (str ''bias'') \<noteq> None"
  shows "\<exists>x. as_float (dict_get kw (str ''bias'') dflt) = Some x"
proof -
  from assms(2) obtain v where v: "map_of kw (str ''bias'') = Some v" by blast
  from typed_lookup [OF assms(1) v] have "as_float v \<noteq> None"
    by (simp add: typed_field_def str_def)
  with v show ?thesis by (simp add: dict_get_def)
qed

lemma typed_str:
  assumes "list_all typed_field kw" and "k \<in> set field_names" and "k \<noteq> str ''index''"
    and "k \<noteq> str ''bias''" and "as_str dflt \<noteq> None"
  shows "\<exists>s. as_str (dict_get kw k dflt) = Some s"
proof (cases "map_of kw k")
  case None
  with assms(5) show ?thesis by (simp add: dict_get_def)
next
  case (Some v)
  from typed_lookup [OF assms(1) Some] assms(2,3,4) have "as_str v \<noteq> None"
    by (simp add: typed_field_def)
  with Some show ?thesis by (simp add: dict_get_def)
qed

lemma typed_str_required:
  assumes "list_all typed_field kw" and "k \<in> set field_names" and "k \<noteq> str ''index''"
    and "k \<noteq> str ''bias''" and "map_of kw k \<noteq> None"
  shows "\<exists>s. as_str (dict_get kw k dflt) = Some s"
proof -
  from assms(5) obtain v where v: "map_of kw k = Some v" by blast
  from typed_lookup [OF assms(1) v] assms(2,3,4) have "as_str v \<noteq> None"
    by (simp add: typed_field_def)
  with v show ?thesis by (simp add: dict_get_def)
qed

lemma bind_fields_typed:
  assumes t: "list_all typed_field kw"
    and r: "list_all (\<lambda>k. map_of kw k \<noteq> None) required_fields"
  shows "\<exists>q. bind_fields kw = Some q"
proof -
  from r have p: "map_of kw (str ''index'') \<noteq> None" "map_of kw (str ''label'') \<noteq> None"
    "map_of kw (str ''label_zh'') \<noteq> None" "map_of kw (str ''consciousness'') \<noteq> None"
    "map_of kw (str ''consciousness_zh'') \<noteq> None" "map_of kw (str ''function'') \<noteq> None"
    "map_of kw (str ''bias'') \<noteq> None"
    by (simp_all add: required_fields_def)
  obtain i where i: "as_int (dict_get kw (str ''index'') JNull) = Some i"
    using typed_int [OF t p(1)] by blast
  obtain l where l: "as_str (dict_get kw (str ''label'') JNull) = Some l"
    using typed_str_required [OF t _ _ _ p(2)] by (auto simp: field_names_def required_fields_def str_def)
  obtain lz where lz: "as_str (dict_get kw (str ''label_zh'') JNull) = Some lz"
    using typed_str_required [OF t _ _ _ p(3)] by (auto simp: field_names_def required_fields_def str_def)
  obtain c where c: "as_str (dict_get kw (str ''consciousness'') JNull) = Some c"
    using typed_str_required [OF t _ _ _ p(4)] by (auto simp: field_names_def required_fields_def str_def)
  obtain cz where cz: "as_str (dict_get kw (str ''consciousness_zh'') JNull) = Some cz"
    using typed_str_required [OF t _ _ _ p(5)] by (auto simp: field_names_def required_fields_def str_def)
  obtain f where f: "as_str (dict_get kw (str ''function'') JNull) = Some f"
    using typed_str_required [OF t _ _ _ p(6)] by (auto simp: field_names_def required_fields_def str_def)
  obtain b where b: "as_float (dict_get kw (str ''bias'') JNull) = Some b"
    using typed_float [OF t p(7)] by blast
  obtain d where d: "as_str (dict_get kw (str ''description'') (JStr [])) = Some d"
    using typed_str [OF t, of "str ''description''" "JStr []"]
    by (auto simp: field_names_def required_fields_def str_def)
  show ?thesis
    by (simp add: bind_fields_def i l lz c cz f b d)
qed

lemma those_bind_fields_typed:
  "list_all position_ok (map JDict objs) \<Longrightarrow> list_all typed_position (map JDict objs) \<Longrightarrow>
     \<exists>ps. those (map bind_fields objs) = Some ps"
proof (induction objs)
  case Nil
  then show ?case by simp
next
  case (Cons kw objs)
  then obtain ps where ps: "those (map bind_fields objs) = Some ps"
    by auto
  from Cons.prems have "list_all typed_field kw"
    and "list_all (\<lambda>k. map_of kw k \<noteq> None) required_fields"
    by (simp_all add: position_ok_def typed_position_def)
  then obtain q where "bind_fields kw = Some q"
    using bind_fields_typed by blast
  with ps show ?case by simp
qed

lemma typed_grid_str:
  assumes "list_all typed_grid_field mg"
    and "k \<in> {str ''version'', str ''name'', str ''description''}" and "as_str dflt \<noteq> None"
  shows "\<exists>s. as_str (dict_get mg k dflt) = Some s"
proof (cases "map_of mg k")
  case None
  with assms(3) show ?thesis by (simp add: dict_get_def)
next
  case (Some v)
  then have "(k, v) \<in> set mg" by (rule map_of_SomeD)
  with assms(1) have "typed_grid_field (k, v)" by (simp add: list_all_iff)
  with assms(2) have "as_str v \<noteq> None" by (simp add: typed_grid_field_def)
  with Some show ?thesis by (simp add: dict_get_def)
qed

lemma py_iter_errors: "py_iter ps = Inl e \<Longrightarrow> e = TypeError"
  by (cases ps) simp_all

text \<open>What \<open>from_fields\<close> raises, for every dict.\<close>

lemma from_fields_raises:
  "((\<exists>e. from_fields mg = Inl e \<and> e \<noteq> IllTyped) \<longleftrightarrow> \<not> fields_ok mg)
   \<and> (\<forall>e. from_fields mg = Inl e \<longrightarrow> e \<in> {KeyError, TypeError, IllTyped})
   \<and> (from_fields mg = Inl KeyError \<longleftrightarrow> map_of mg (str ''positions'') = None)"
proof (cases "map_of mg (str ''positions'')")
  case None
  then show ?thesis by (simp add: from_fields_def fields_ok_def)
next
  case (Some ps)
  show ?thesis
  proof (cases "py_iter ps")
    case (Inl e)
    then have "e = TypeError" by (rule py_iter_errors)
    with Some Inl show ?thesis by (simp add: from_fields_def fields_ok_def)
  next
    case (Inr items)
    show ?thesis
    proof (cases "init_all items")
      case (Inl e)
      then have "e = TypeError" "\<not> list_all position_ok items"
        by (simp_all add: init_all_Inl)
      with Some Inr Inl show ?thesis by (simp add: from_fields_def fields_ok_def)
    next
      case objs: (Inr objs)
      have "list_all position_ok items"
        using init_all_Inl [of items TypeError] objs by auto
      with Some Inr objs show ?thesis
        by (auto simp: from_fields_def fields_ok_def split: option.splits)
    qed
  qed
qed

lemma from_fields_typed:
  assumes "typed_fields mg"
  shows "from_fields mg \<noteq> Inl IllTyped"
proof (cases "map_of mg (str ''positions'')")
  case None
  then show ?thesis by (simp add: from_fields_def)
next
  case (Some ps)
  show ?thesis
  proof (cases "py_iter ps")
    case (Inl e)
    then have "e = TypeError" by (rule py_iter_errors)
    with Some Inl show ?thesis by (simp add: from_fields_def)
  next
    case (Inr items)
    from assms Some Inr have ti: "list_all typed_position items"
      and tg: "list_all typed_grid_field mg"
      by (simp_all add: typed_fields_def)
    show ?thesis
    proof (cases "init_all items")
      case (Inl e)
      then have "e = TypeError" by (simp add: init_all_Inl)
      with Some Inr Inl show ?thesis by (simp add: from_fields_def)
    next
      case objs: (Inr objs)
      then have items: "items = map JDict objs" by (rule init_all_Inr)
      have "list_all position_ok items"
        using init_all_Inl [of items TypeError] objs by auto
      with ti items obtain qs where qs: "those (map bind_fields objs) = Some qs"
        using those_bind_fields_typed by blast
      obtain v where v: "as_str (dict_get mg (str ''version'') (JStr (str ''2.0''))) = Some v"
        using typed_grid_str [OF tg, of "str ''version''" "JStr (str ''2.0'')"] by auto
      obtain n where n: "as_str (dict_get mg (str ''name'') (JStr (str ''custom''))) = Some n"
        using typed_grid_str [OF tg, of "str ''name''" "JStr (str ''custom'')"] by auto
      obtain d where d: "as_str (dict_get mg (str ''description'') (JStr [])) = Some d"
        using typed_grid_str [OF tg, of "str ''description''" "JStr []"] by auto
      from Some Inr objs qs v n d show ?thesis
        by (simp add: from_fields_def)
    qed
  qed
qed

lemma from_data_raises:
  "((\<exists>e. from_data data = Inl e \<and> e \<noteq> IllTyped) \<longleftrightarrow> \<not> loadable data)
   \<and> (\<forall>e. from_data data = Inl e \<longrightarrow> e \<in> {KeyError, TypeError, AttributeError, IllTyped})"
proof (cases data)
  case (JDict d)
  show ?thesis
  proof (cases "dict_get d (str ''mandala_grid'') data")
    case (JDict mg)
    have fd: "from_data data = from_fields mg" and ld: "loadable data = fields_ok mg"
      using JDict \<open>data = JDict d\<close> by (simp_all add: from_data_def loadable_def)
    from from_fields_raises [of mg] show ?thesis
      unfolding fd ld by blast
  qed (simp_all add: from_data_def loadable_def \<open>data = JDict d\<close>)
qed (simp_all add: from_data_def loadable_def)

lemma from_data_typed:
  assumes "typed_source data"
  shows "from_data data \<noteq> Inl IllTyped"
proof (cases data)
  case (JDict d)
  show ?thesis
  proof (cases "dict_get d (str ''mandala_grid'') data")
    case (JDict mg)
    with \<open>data = JDict d\<close> assms have "typed_fields mg"
      by (simp add: typed_source_def)
    from from_fields_typed [OF this] JDict \<open>data = JDict d\<close> show ?thesis
      by (simp add: from_data_def)
  qed (simp_all add: from_data_def \<open>data = JDict d\<close>)
qed (simp_all add: from_data_def)

lemma from_data_typed_iff:
  assumes "typed_source data"
  shows "(\<exists>g. from_data data = Inr g) \<longleftrightarrow> loadable data"
proof
  assume "\<exists>g. from_data data = Inr g"
  then have "\<not> (\<exists>e. from_data data = Inl e \<and> e \<noteq> IllTyped)" by auto
  with from_data_raises [of data] show "loadable data" by blast
next
  assume l: "loadable data"
  show "\<exists>g. from_data data = Inr g"
  proof (cases "from_data data")
    case (Inl e)
    with from_data_typed [OF assms] have "e \<noteq> IllTyped" by auto
    with Inl from_data_raises [of data] l show ?thesis by blast
  next
    case (Inr g)
    then show ?thesis by blast
  qed
qed

lemma from_fields_defaults:
  assumes "from_fields mg = Inr g"
  shows "(map_of mg (str ''version'') = None \<longrightarrow> version g = str ''2.0'')
         \<and> (map_of mg (str ''name'') = None \<longrightarrow> name g = str ''custom'')
         \<and> (map_of mg (str ''description'') = None \<longrightarrow> MandalaGrid.description g = [])
         \<and> (\<forall>v. map_of mg (str ''version'') = Some (JStr v) \<longrightarrow> version g = v)
         \<and> (\<forall>v. map_of mg (str ''name'') = Some (JStr v) \<longrightarrow> name g = v)
         \<and> (\<forall>v. map_of mg (str ''description'') = Some (JStr v) \<longrightarrow> MandalaGrid.description g = v)"
  using assms
  by (auto simp: from_fields_def dict_get_def split: option.splits sum.splits)

lemma from_fields_positions_only:
  "from_fields [(str ''positions'', JList (map position_to_dict ps))] =
     Inr \<lparr>positions = ps, version = str ''2.0'', name = str ''custom'', description = []\<rparr>"
  by (rule from_fields_to_dict) (simp_all add: dict_get_def str_def)

lemma from_json_decode_error:
  "from_json fs path = Inl JSONDecodeError \<longleftrightarrow> fs path = Some Malformed"
proof (cases "fs path")
  case None
  then show ?thesis by (simp add: from_json_def)
next
  case (Some c)
  show ?thesis
  proof (cases c)
    case Malformed
    with Some show ?thesis by (simp add: from_json_def)
  next
    case (Document data)
    have "from_data data \<noteq> Inl JSONDecodeError"
      using from_data_raises [of data] by auto
    with Some Document show ?thesis by (simp add: from_json_def)
  qed
qed

text \<open>
  C4, as amended. \<^verbatim>\<open>from_json\<close> reads the grid fields from the object under
  \<^verbatim>\<open>mandala_grid\<close> when the source has that key, and from the source itself when it has
  not. A version, name or description that is missing becomes \<^verbatim>\<open>2.0\<close>, \<^verbatim>\<open>custom\<close> and the
  empty string; one that is given is kept. Grid fields that hold just a list of serialized
  positions load to exactly these positions, whatever their biases: no bias is rejected.
  Loading raises an exception exactly when the source is not \<open>loadable\<close>, that is, unless
  it is an object, its grid part is an object with the key \<^verbatim>\<open>positions\<close>, that key holds
  something iterable, and every item is an object that has the seven required fields and
  no key that is not a field; the exception is \<^verbatim>\<open>KeyError\<close>, \<^verbatim>\<open>TypeError\<close> or
  \<^verbatim>\<open>AttributeError\<close> (the spec's DeserializationError). A loadable source whose values have
  the declared types loads to a grid. Grid fields without \<^verbatim>\<open>positions\<close> raise \<^verbatim>\<open>KeyError\<close>;
  an item that is not such an object raises \<^verbatim>\<open>TypeError\<close>; a file that is not valid JSON
  raises \<^verbatim>\<open>JSONDecodeError\<close>, and only such a file does.
\<close>

theorem from_json_accepts:
  "(map_of d (str ''mandala_grid'') = Some (JDict mg) \<longrightarrow> from_data (JDict d) = from_fields mg)
   \<and> (map_of d (str ''mandala_grid'') = None \<longrightarrow> from_data (JDict d) = from_fields d)
   \<and> (from_fields mg = Inr g \<longrightarrow>
         (map_of mg (str ''version'') = None \<longrightarrow> version g = str ''2.0'')
         \<and> (map_of mg (str ''name'') = None \<longrightarrow> name g = str ''custom'')
         \<and> (map_of mg (str ''description'') = None \<longrightarrow> MandalaGrid.description g = [])
         \<and> (\<forall>v. map_of mg (str ''version'') = Some (JStr v) \<longrightarrow> version g = v)
         \<and> (\<forall>v. map_of mg (str ''name'') = Some (JStr v) \<longrightarrow> name g = v)
         \<and> (\<forall>v. map_of mg (str ''description'') = Some (JStr v) \<longrightarrow>
               MandalaGrid.description g = v))
   \<and> from_fields [(str ''positions'', JList (map position_to_dict ps))] =
       Inr \<lparr>positions = ps, version = str ''2.0'', name = str ''custom'', description = []\<rparr>
   \<and> ((\<exists>e. from_data data = Inl e \<and> e \<noteq> IllTyped) \<longleftrightarrow> \<not> loadable data)
   \<and> (\<forall>e. from_data data = Inl e \<longrightarrow> e \<in> {KeyError, TypeError, AttributeError, IllTyped})
   \<and> (typed_source data \<longrightarrow>
         from_data data \<noteq> Inl IllTyped
         \<and> ((\<exists>g. from_data data = Inr g) \<longleftrightarrow> loadable data))
   \<and> (map_of mg (str ''positions'') = None \<longrightarrow> from_fields mg = Inl KeyError)
   \<and> (\<not> position_ok p \<longrightarrow> GridPosition_init p = Inl TypeError)
   \<and> (from_json fs path = Inl JSONDecodeError \<longleftrightarrow> fs path = Some Malformed)
   \<and> (fs path = Some (Document data) \<longrightarrow> from_json fs path = from_data data)"
proof -
  have w: "map_of d (str ''mandala_grid'') = Some (JDict mg) \<longrightarrow> from_data (JDict d) = from_fields mg"
    by (simp add: from_data_def dict_get_def)
  have u: "map_of d (str ''mandala_grid'') = None \<longrightarrow> from_data (JDict d) = from_fields d"
    by (simp add: from_data_def dict_get_def)
  have k: "map_of mg (str ''positions'') = None \<longrightarrow> from_fields mg = Inl KeyError"
    by (simp add: from_fields_def)
  have f: "fs path = Some (Document data) \<longrightarrow> from_json fs path = from_data data"
    by (simp add: from_json_def)
  have i: "\<not> position_ok p \<longrightarrow> GridPosition_init p = Inl TypeError"
    by (simp add: GridPosition_init_Inl)
  show ?thesis
    using w u from_fields_defaults [of mg g] from_fields_positions_only [of ps]
      from_data_raises [of data] from_data_typed [of data] from_data_typed_iff [of data]
      k i from_json_decode_error [of fs path] f
    by blast
qed

theorem from_json_accepts_witness:
  "map_of [(str ''mandala_grid'', JDict loose_fields)] (str ''mandala_grid'') = Some (JDict loose_fields)
   \<and> from_data (JDict [(str ''mandala_grid'', JDict loose_fields)]) = Inr wild_grid
   \<and> map_of loose_fields (str ''mandala_grid'') = None
   \<and> from_data (JDict loose_fields) = Inr wild_grid
   \<and> map bias (positions wild_grid) = [15 / 2, - 2]
   \<and> \<not> loadable (JDict [])
   \<and> from_data (JDict []) = Inl KeyError
   \<and> typed_source (to_dict default_grid)
   \<and> loadable (to_dict default_grid)
   \<and> (\<exists>g. from_data (to_dict default_grid) = Inr g)
   \<and> \<not> position_ok (JDict [])
   \<and> GridPosition_init (JDict []) = Inl TypeError"
proof -
  let ?w = "[(str ''mandala_grid'', JDict loose_fields)]"
  note a = from_json_accepts [of ?w loose_fields wild_grid wild_positions "JDict []" "JDict []"]
  note b = from_json_accepts [of loose_fields "[]" wild_grid wild_positions "to_dict default_grid"
      "JDict []"]
  note c = from_json_accepts [of "[]" "[]" wild_grid wild_positions "JDict []" "JDict []"]
  have m1: "map_of ?w (str ''mandala_grid'') = Some (JDict loose_fields)"
    by simp
  have m2: "map_of loose_fields (str ''mandala_grid'') = None"
    by (simp add: loose_fields_def str_def)
  have ff: "from_fields loose_fields = Inr wild_grid"
    using a by (simp add: loose_fields_def wild_grid_def)
  from a m1 ff have r1: "from_data (JDict ?w) = Inr wild_grid"
    by simp
  from b m2 ff have r2: "from_data (JDict loose_fields) = Inr wild_grid"
    by simp
  have bs: "map bias (positions wild_grid) = [15 / 2, - 2]"
    by (simp add: wild_grid_def wild_positions_def)
  have l0: "\<not> loadable (JDict [])"
    by (simp add: loadable_def dict_get_def fields_ok_def)
  have "map_of [] (str ''mandala_grid'') = None" "map_of [] (str ''positions'') = None"
    by simp_all
  with c have r3: "from_data (JDict []) = Inl KeyError"
    by simp
  have td: "typed_source (to_dict default_grid)"
    by (simp add: typed_source_def to_dict_def dict_get_def typed_fields_def typed_grid_field_def
        typed_position_def typed_field_def position_to_dict_def field_names_def
        required_fields_def default_grid_def default_positions_def str_def)
  from b td have ld: "loadable (to_dict default_grid) \<and> (\<exists>g. from_data (to_dict default_grid) = Inr g)"
    using from_data_to_dict [of default_grid] by blast
  have p0: "\<not> position_ok (JDict [])"
    by (simp add: position_ok_def required_fields_def)
  with a have i0: "GridPosition_init (JDict []) = Inl TypeError"
    by blast
  from m1 r1 m2 r2 bs l0 r3 td ld p0 i0 show ?thesis
    by blast
qed

text \<open>
  The claim as stated fails on a position that has every required field and one key
  more: the source is valid structured data with the key \<^verbatim>\<open>positions\<close> and no field is
  missing, yet \<^verbatim>\<open>GridPosition(**p)\<close> raises \<^verbatim>\<open>TypeError\<close> for the unexpected keyword.
\<close>

theorem extra_key_counterexample:
  "extra_key_source = JDict [(str ''positions'', JList [JDict extra_key_position])]
   \<and> set required_fields \<subseteq> fst ` set extra_key_position
   \<and> typed_source extra_key_source
   \<and> from_data extra_key_source = Inl TypeError"
  by (simp add: extra_key_source_def extra_key_position_def required_fields_def field_names_def
      typed_source_def typed_fields_def typed_grid_field_def typed_position_def typed_field_def
      from_data_def from_fields_def GridPosition_init_def dict_get_def str_def)

end
